theory Spec2Isabelle
  imports Main "HOL-Library.Word"
begin

section \<open>The WASAPI player's render loop (client/player/wasapi\_player.cpp)\<close>

subsection \<open>Drift passed to the chunk request\<close>

text \<open>
  Lines 319 to 322 of \<^verbatim>\<open>WASAPIPlayer::worker\<close>:
  \<^verbatim>\<open>
  microseconds(((bufferPosition * 1000000) / waveformat->nSamplesPerSec) -
               ((position * 1000000) / frequency))
  \<close>
  \<^verbatim>\<open>bufferPosition\<close>, \<^verbatim>\<open>position\<close> and \<^verbatim>\<open>frequency\<close> are \<^verbatim>\<open>UINT64\<close>,
  \<^verbatim>\<open>nSamplesPerSec\<close> is a \<^verbatim>\<open>DWORD\<close> that the division converts to \<^verbatim>\<open>UINT64\<close>, so the
  products, the quotients and the difference are all computed modulo \<open>2 ^ 64\<close>.
  A division by zero is undefined in the source (and \<open>0\<close> in HOL): the loop below reports
  it as an error before this expression is evaluated.
\<close>

definition drift :: "64 word \<Rightarrow> 32 word \<Rightarrow> 64 word \<Rightarrow> 64 word \<Rightarrow> 64 word" where
  "drift bufferPosition nSamplesPerSec position frequency =
     ((bufferPosition * 1000000) div ucast nSamplesPerSec) -
     ((position * 1000000) div frequency)"

text \<open>
  \<^verbatim>\<open>std::chrono::microseconds\<close> holds a signed 64-bit count: the unsigned value is
  converted to it bit for bit.
\<close>

definition microseconds :: "64 word \<Rightarrow> int" where
  "microseconds d = sint d"

subsection \<open>Result codes of the Windows SDK\<close>

text \<open>
  An \<^verbatim>\<open>HRESULT\<close> is a signed 32-bit value; \<^verbatim>\<open>FAILED(hr)\<close> is \<^verbatim>\<open>((HRESULT)(hr)) < 0\<close>.
  The constants are those of \<^verbatim>\<open>winerror.h\<close>, \<^verbatim>\<open>audioclient.h\<close> and \<^verbatim>\<open>winbase.h\<close>.
\<close>

type_synonym HRESULT = "32 word"

definition FAILED :: "HRESULT \<Rightarrow> bool" where
  "FAILED hres = (sint hres < 0)"

definition S_OK :: HRESULT where
  "S_OK = 0"

definition ERROR_TIMEOUT :: HRESULT where
  "ERROR_TIMEOUT = 1460"

definition E_FAIL :: HRESULT where
  "E_FAIL = 0x80004005"

definition E_POINTER :: HRESULT where
  "E_POINTER = 0x80004003"

definition AUDCLNT_E_BUFFER_SIZE_NOT_ALIGNED :: HRESULT where
  "AUDCLNT_E_BUFFER_SIZE_NOT_ALIGNED = 0x88890019"

definition WAIT_OBJECT_0 :: "32 word" where
  "WAIT_OBJECT_0 = 0"

subsection \<open>The outside of the render thread\<close>

text \<open>
  The worker talks to the audio endpoint (COM calls, the pacing event, the device clock),
  to the stream (\<^verbatim>\<open>getPlayerChunk\<close>, \<^verbatim>\<open>waitForChunk\<close>) and reads the flag \<^verbatim>\<open>active_\<close>
  that another thread clears. The outside is a sequence of snapshots: the worker's
  \<open>n\<close>-th interaction observes snapshot \<open>n\<close>, and of it only the field that the
  interaction asks for.
\<close>

record world =
  active :: bool                \<comment> \<open>the value a load of \<^verbatim>\<open>active_\<close> gives\<close>
  hr :: HRESULT                 \<comment> \<open>the result of a COM call made now\<close>
  handle :: bool                \<comment> \<open>whether a handle created now is not \<^verbatim>\<open>NULL\<close>\<close>
  buffer_size :: "32 word"      \<comment> \<open>what \<^verbatim>\<open>GetBufferSize\<close> stores\<close>
  wait_result :: "32 word"      \<comment> \<open>what \<^verbatim>\<open>WaitForSingleObject(eventHandle, 2000)\<close> returns\<close>
  device_position :: "64 word"  \<comment> \<open>what \<^verbatim>\<open>IAudioClock::GetPosition\<close> stores\<close>
  device_frequency :: "64 word" \<comment> \<open>what \<^verbatim>\<open>IAudioClock::GetFrequency\<close> stores\<close>
  chunk_available :: bool       \<comment> \<open>what \<^verbatim>\<open>getPlayerChunk\<close> returns\<close>
  chunk_arrived :: bool         \<comment> \<open>what \<^verbatim>\<open>waitForChunk(100ms)\<close> returns\<close>

type_synonym env = "nat \<Rightarrow> world"

datatype call =
    CoCreateInstance | GetDefaultAudioEndpoint | EnumAudioEndpoints | Item | Activate
  | IsFormatSupported | GetDevicePeriod | Initialize | GetBufferSize | SetEventHandle
  | GetService_IAudioRenderClient | GetService_IAudioClock
  | Start | Stop | Reset | GetBuffer | ReleaseBuffer

datatype handle_call = CreateEvent | AvSetMmThreadCharacteristics

text \<open>What the worker does, in order. Each constructor carries what the call was given
  and what it gave back.\<close>

datatype event =
    Active bool                          \<comment> \<open>a load of \<^verbatim>\<open>active_\<close>\<close>
  | Com call HRESULT                     \<comment> \<open>a COM call and its result\<close>
  | Handle handle_call bool
  | Waited "32 word"                     \<comment> \<open>\<^verbatim>\<open>WaitForSingleObject\<close> returned\<close>
  | Frequency "64 word"                  \<comment> \<open>\<^verbatim>\<open>clock->GetFrequency\<close>\<close>
  | Position "64 word"                   \<comment> \<open>\<^verbatim>\<open>clock->GetPosition\<close>\<close>
  | PlayerChunk "64 word" "32 word" bool \<comment> \<open>\<^verbatim>\<open>getPlayerChunk\<close>: the offset, the frames, the answer\<close>
  | ChunkWait bool                       \<comment> \<open>\<^verbatim>\<open>waitForChunk\<close>\<close>
  | Volume "32 word"                     \<comment> \<open>\<^verbatim>\<open>adjustVolume\<close> on that many frames\<close>
  | Memcpy
  | BufferPosition "64 word"             \<comment> \<open>an assignment to \<^verbatim>\<open>bufferPosition\<close>, with the new value\<close>
  | Logged string

text \<open>
  \<^verbatim>\<open>CHECK_HR\<close> throws a \<^verbatim>\<open>SnapException\<close> whose text holds the result code and
  \<^verbatim>\<open>__LINE__\<close>. The smart pointers of \<^verbatim>\<open>comdef.h\<close> (\<^verbatim>\<open>IMMDevicePtr\<close> and the
  others, instances of \<^verbatim>\<open>_com_ptr_t\<close>) throw a \<^verbatim>\<open>_com_error\<close> with the code
  \<^verbatim>\<open>E_POINTER\<close> when \<^verbatim>\<open>operator->\<close> is applied to one that holds \<^verbatim>\<open>NULL\<close>. An
  integer division by zero is undefined behaviour in the source; the model reports it as
  an error of its own.
\<close>

datatype error = SnapException HRESULT int | ComError HRESULT | DivisionByZero

text \<open>
  A statement ends normally, leaves the loop by \<^verbatim>\<open>break\<close>, throws, or is still running
  when the fuel of the model's loops is used up.
\<close>

datatype 'a result = Normal 'a | Break | Throw error | OutOfFuel

text \<open>The local variables of \<^verbatim>\<open>worker\<close> that the loop uses, and the number of
  interactions so far.\<close>

record state =
  now :: nat
  bufferFrameCount :: "32 word"
  position :: "64 word"
  bufferPosition :: "64 word"
  frequency :: "64 word"

record config =
  idx :: int                    \<comment> \<open>\<^verbatim>\<open>pcmDevice_.idx\<close>\<close>
  nSamplesPerSec :: "32 word"   \<comment> \<open>\<^verbatim>\<open>stream_->getFormat().rate()\<close>\<close>

type_synonym 'a stmt = "state \<Rightarrow> 'a result \<times> event list \<times> state"

definition return :: "'a \<Rightarrow> 'a stmt" where
  "return a s = (Normal a, [], s)"

definition bind :: "'a stmt \<Rightarrow> ('a \<Rightarrow> 'b stmt) \<Rightarrow> 'b stmt" where
  "bind m f s =
     (case m s of
        (Normal a, es, s') \<Rightarrow> (case f a s' of (r, es', s'') \<Rightarrow> (r, es @ es', s''))
      | (Break, es, s') \<Rightarrow> (Break, es, s')
      | (Throw e, es, s') \<Rightarrow> (Throw e, es, s')
      | (OutOfFuel, es, s') \<Rightarrow> (OutOfFuel, es, s'))"

text \<open>A sequence of statements.\<close>

fun block :: "unit stmt list \<Rightarrow> unit stmt" where
  "block [] = return ()"
| "block (m # ms) = bind m (\<lambda>_. block ms)"

definition break :: "unit stmt" where
  "break s = (Break, [], s)"

definition observe :: "env \<Rightarrow> (world \<Rightarrow> 'a) \<Rightarrow> ('a \<Rightarrow> event) \<Rightarrow> 'a stmt" where
  "observe env field ev s =
     (Normal (field (env (now s))), [ev (field (env (now s)))], s\<lparr>now := Suc (now s)\<rparr>)"

definition emit :: "event \<Rightarrow> unit stmt" where
  "emit e s = (Normal (), [e], s)"

definition LOG :: "string \<Rightarrow> unit stmt" where
  "LOG msg = emit (Logged msg)"

definition CHECK_HR :: "HRESULT \<Rightarrow> int \<Rightarrow> unit stmt" where
  "CHECK_HR hres line s =
     (if FAILED hres then (Throw (SnapException hres line), [], s) else (Normal (), [], s))"

definition com :: "env \<Rightarrow> call \<Rightarrow> HRESULT stmt" where
  "com env c = observe env hr (Com c)"

text \<open>The idiom \<^verbatim>\<open>hr = f(...); CHECK_HR(hr);\<close> with the line of the check.\<close>

definition checked :: "env \<Rightarrow> call \<Rightarrow> int \<Rightarrow> unit stmt" where
  "checked env c line = bind (com env c) (\<lambda>hres. CHECK_HR hres line)"

definition throw :: "error \<Rightarrow> 'a stmt" where
  "throw e s = (Throw e, [], s)"

text \<open>
  \<^verbatim>\<open>p->f(...)\<close> on a smart pointer \<^verbatim>\<open>p\<close>: the call is made when \<^verbatim>\<open>p\<close> holds a
  pointer (\<open>p\<close> is true), and \<^verbatim>\<open>_com_error(E_POINTER)\<close> is thrown, without any call,
  when it holds \<^verbatim>\<open>NULL\<close>.
\<close>

definition arrow :: "bool \<Rightarrow> 'a stmt \<Rightarrow> 'a stmt" where
  "arrow p m = (if p then m else throw (ComError E_POINTER))"

text \<open>\<^verbatim>\<open>if (h == NULL) CHECK_HR(E_FAIL);\<close> after creating a handle.\<close>

definition checked_handle :: "env \<Rightarrow> handle_call \<Rightarrow> int \<Rightarrow> unit stmt" where
  "checked_handle env c line =
     bind (observe env handle (Handle c))
       (\<lambda>h. if \<not> h then CHECK_HR E_FAIL line else return ())"

definition load_active :: "env \<Rightarrow> bool stmt" where
  "load_active env = observe env active Active"

definition WaitForSingleObject :: "env \<Rightarrow> 32 word stmt" where
  "WaitForSingleObject env = observe env wait_result Waited"

definition waitForChunk :: "env \<Rightarrow> bool stmt" where
  "waitForChunk env = observe env chunk_arrived ChunkWait"

definition GetFrequency :: "env \<Rightarrow> unit stmt" where
  "GetFrequency env s =
     (Normal (), [Frequency (device_frequency (env (now s)))],
      s\<lparr>now := Suc (now s), frequency := device_frequency (env (now s))\<rparr>)"

definition GetPosition :: "env \<Rightarrow> unit stmt" where
  "GetPosition env s =
     (Normal (), [Position (device_position (env (now s)))],
      s\<lparr>now := Suc (now s), position := device_position (env (now s))\<rparr>)"

text \<open>
  The call of lines 319 to 322: the offset is computed from the locals, then the stream
  answers.
\<close>

definition getPlayerChunk :: "env \<Rightarrow> config \<Rightarrow> bool stmt" where
  "getPlayerChunk env cfg s =
     (if nSamplesPerSec cfg = 0 \<or> frequency s = 0 then (Throw DivisionByZero, [], s)
      else observe env chunk_available
             (PlayerChunk (drift (bufferPosition s) (nSamplesPerSec cfg) (position s) (frequency s))
                (bufferFrameCount s)) s)"

definition adjustVolume :: "unit stmt" where
  "adjustVolume s = (Normal (), [Volume (bufferFrameCount s)], s)"

definition memcpy :: "unit stmt" where
  "memcpy = emit Memcpy"

definition assign_bufferPosition :: "(state \<Rightarrow> 64 word) \<Rightarrow> unit stmt" where
  "assign_bufferPosition v s = (Normal (), [BufferPosition (v s)], s\<lparr>bufferPosition := v s\<rparr>)"

subsection \<open>The loops\<close>

text \<open>
  Lines 304 and 343:
  \<^verbatim>\<open>while (active_ && !stream_->waitForChunk(std::chrono::milliseconds(100)))
      LOG(INFO, LOG_TAG) << "Waiting for chunk\n";\<close>
  The loop has no bound in the source; the model gives it fuel, one unit for each test of
  the condition.
\<close>

fun wait_loop :: "env \<Rightarrow> nat \<Rightarrow> unit stmt" where
  "wait_loop env 0 = (\<lambda>s. (OutOfFuel, [], s))"
| "wait_loop env (Suc fuel) =
     bind (load_active env) (\<lambda>a.
       if \<not> a then return ()
       else bind (waitForChunk env) (\<lambda>c.
         if c then return ()
         else bind (LOG ''Waiting for chunk'') (\<lambda>_. wait_loop env fuel)))"

text \<open>
  The statements that both recovery paths share (lines 299 to 309 and 338 to 348; they
  differ in the lines that \<^verbatim>\<open>CHECK_HR\<close> reports).
\<close>

definition recovery :: "env \<Rightarrow> nat \<Rightarrow> int \<Rightarrow> int \<Rightarrow> int \<Rightarrow> unit stmt list" where
  "recovery env fuel l1 l2 l3 =
     [checked env Stop l1,
      checked env Reset l2,
      wait_loop env fuel,
      checked env Start l3,
      assign_bufferPosition (\<lambda>_. 0)]"

text \<open>
  The body of \<^verbatim>\<open>while (active_)\<close>, lines 292 to 349. Line 335 writes a severity and a
  tag to \<^verbatim>\<open>std::clog\<close> and no message: it is left out. The messages are without their
  final newline.
\<close>

definition iteration :: "env \<Rightarrow> config \<Rightarrow> nat \<Rightarrow> unit stmt" where
  "iteration env cfg fuel =
     bind (WaitForSingleObject env) (\<lambda>returnVal.
       if returnVal \<noteq> WAIT_OBJECT_0 then
         block ([LOG ''Got timeout waiting for audio device callback'',
                 CHECK_HR ERROR_TIMEOUT 297]
                @ recovery env fuel 300 302 308
                @ [break])
       else bind (load_active env) (\<lambda>a.
         if \<not> a then break
         else bind (GetPosition env) (\<lambda>_.
           bind (getPlayerChunk env cfg) (\<lambda>got.
             if got then
               block [adjustVolume,
                      checked env GetBuffer 326,
                      memcpy,
                      checked env ReleaseBuffer 329,
                      assign_bufferPosition (\<lambda>s. bufferPosition s + ucast (bufferFrameCount s))]
             else
               block ([LOG ''Failed to get chunk'']
                      @ recovery env fuel 339 341 347)))))"

text \<open>\<^verbatim>\<open>while (active_) { ... }\<close>, line 290. One unit of fuel for each test of the
  condition.\<close>

fun worker_loop :: "env \<Rightarrow> config \<Rightarrow> nat \<Rightarrow> unit stmt" where
  "worker_loop env cfg 0 = (\<lambda>s. (OutOfFuel, [], s))"
| "worker_loop env cfg (Suc fuel) =
     bind (load_active env) (\<lambda>a.
       if \<not> a then return ()
       else (\<lambda>s. case iteration env cfg fuel s of
                    (Normal _, es, s') \<Rightarrow>
                      (case worker_loop env cfg fuel s' of (r, es', s'') \<Rightarrow> (r, es @ es', s''))
                  | (Break, es, s') \<Rightarrow> (Normal (), es, s')
                  | (Throw e, es, s') \<Rightarrow> (Throw e, es, s')
                  | (OutOfFuel, es, s') \<Rightarrow> (OutOfFuel, es, s')))"

subsection \<open>The session\<close>

text \<open>
  \<^verbatim>\<open>GetBufferSize(&bufferFrameCount)\<close> with its check, lines 256 and 257.
\<close>

definition GetBufferSize_bufferFrameCount :: "env \<Rightarrow> int \<Rightarrow> unit stmt" where
  "GetBufferSize_bufferFrameCount env line s =
     (let w = env (now s); s' = s\<lparr>now := Suc (now s)\<rparr> in
      if FAILED (hr w) then (Throw (SnapException (hr w) line), [Com GetBufferSize (hr w)], s')
      else (Normal (), [Com GetBufferSize (hr w)], s'\<lparr>bufferFrameCount := buffer_size w\<rparr>))"

definition init_position :: "unit stmt" where
  "init_position s = (Normal (), [], s\<lparr>position := 0\<rparr>)"

text \<open>
  Lines 189 to 202: \<^verbatim>\<open>IMMDevicePtr device = nullptr;\<close> and the lookup that is to fill
  it. The value of the statement says whether \<^verbatim>\<open>device\<close> holds a pointer afterwards.
  A COM call that succeeds stores one; one that fails stores none, and the result of
  \<^verbatim>\<open>devices->Item(pcmDevice_.idx-1, &device)\<close> (line 201) is not looked at, so after a
  failed \<^verbatim>\<open>Item\<close> the worker goes on with \<^verbatim>\<open>device\<close> still \<^verbatim>\<open>NULL\<close>.
\<close>

definition lookup_device :: "env \<Rightarrow> config \<Rightarrow> bool stmt" where
  "lookup_device env cfg =
     (if idx cfg = 0 then
        bind (checked env GetDefaultAudioEndpoint 193) (\<lambda>_. return True)
      else
        bind (checked env EnumAudioEndpoints 199) (\<lambda>_.
          bind (com env Item) (\<lambda>hres. return (\<not> FAILED hres))))"

text \<open>
  \<^verbatim>\<open>WASAPIPlayer::worker\<close> from line 180 on. The wave format that lines 160 to 177 fill
  in, the durations given to \<^verbatim>\<open>Initialize\<close> (line 234 computes the second one in
  floating point) and the bytes that \<^verbatim>\<open>memcpy\<close> moves do not decide what the worker
  does next and are not part of the events. The results of \<^verbatim>\<open>GetFrequency\<close> and
  \<^verbatim>\<open>GetPosition\<close> are not looked at by the source. \<^verbatim>\<open>device\<close> is dereferenced at
  lines 206 and 235; the other interface pointers are used only after the checked call
  that stored them. The allocations of lines 160, 171 and 286 are taken to succeed.
\<close>

definition worker :: "env \<Rightarrow> config \<Rightarrow> nat \<Rightarrow> unit stmt" where
  "worker env cfg fuel =
     bind (checked env CoCreateInstance 186) (\<lambda>_.
     bind (lookup_device env cfg) (\<lambda>device.
       block
         [arrow device (checked env Activate 207),
          checked env IsFormatSupported 213,
          checked env GetDevicePeriod 218,
          bind (com env Initialize) (\<lambda>hres.
            if hres = AUDCLNT_E_BUFFER_SIZE_NOT_ALIGNED then
              block [checked env GetBufferSize 232,
                     arrow device (checked env Activate 236),
                     checked env Initialize 245]
            else CHECK_HR hres 245),
          checked_handle env CreateEvent 250,
          checked env SetEventHandle 252,
          GetBufferSize_bufferFrameCount env 257,
          checked env GetService_IAudioRenderClient 264,
          checked env GetService_IAudioClock 271,
          checked_handle env AvSetMmThreadCharacteristics 278,
          checked env Start 282,
          init_position,
          assign_bufferPosition (\<lambda>_. 0),
          GetFrequency env,
          worker_loop env cfg fuel]))"

section \<open>Vocabulary of the properties\<close>

text \<open>
  The formula of the specification, on unbounded integers:
  \<^verbatim>\<open>drift_us = (bufferPosition * 1_000_000 / sampleRate) - (hwTicks * 1_000_000 / hwFrequency)\<close>.
\<close>

definition spec_drift_us :: "int \<Rightarrow> int \<Rightarrow> int \<Rightarrow> int \<Rightarrow> int" where
  "spec_drift_us bufferPos sampleRate hwTicks hwFrequency =
     (bufferPos * 1000000) div sampleRate - (hwTicks * 1000000) div hwFrequency"

text \<open>The events of \<open>n\<close> rounds of the polling loop in which the flag was set and no
  chunk had arrived.\<close>

fun polls :: "nat \<Rightarrow> event list" where
  "polls 0 = []"
| "polls (Suc n) = Active True # ChunkWait False # Logged ''Waiting for chunk'' # polls n"

text \<open>The events of the body from the pacing wait to the answer of the stream, when the
  wait was signalled and the flag was still set.\<close>

definition request :: "env \<Rightarrow> config \<Rightarrow> state \<Rightarrow> event list" where
  "request env cfg s =
     [Waited WAIT_OBJECT_0, Active True, Position (device_position (env (Suc (Suc (now s))))),
      PlayerChunk (drift (bufferPosition s) (nSamplesPerSec cfg)
                     (device_position (env (Suc (Suc (now s))))) (frequency s))
        (bufferFrameCount s) (chunk_available (env (Suc (Suc (Suc (now s))))))]"

text \<open>How a recovery goes on from the outcome of its polling loop: \<^verbatim>\<open>Start\<close>, its
  check, and the assignment of zero.\<close>

definition restart ::
  "env \<Rightarrow> int \<Rightarrow> event list \<Rightarrow> unit result \<times> event list \<times> state
     \<Rightarrow> unit result \<times> event list \<times> state" where
  "restart env l3 pre w =
     (case w of
        (Normal _, es, s1) \<Rightarrow>
          (if FAILED (hr (env (now s1)))
           then (Throw (SnapException (hr (env (now s1))) l3),
                 pre @ es @ [Com Start (hr (env (now s1)))], s1\<lparr>now := Suc (now s1)\<rparr>)
           else (Normal (), pre @ es @ [Com Start (hr (env (now s1))), BufferPosition 0],
                 s1\<lparr>now := Suc (now s1), bufferPosition := 0\<rparr>))
      | (r, es, s1) \<Rightarrow> (r, pre @ es, s1))"

text \<open>Events that touch neither the endpoint nor \<^verbatim>\<open>bufferPosition\<close>.\<close>

definition quiet :: "event \<Rightarrow> bool" where
  "quiet e = (case e of Active _ \<Rightarrow> True | ChunkWait _ \<Rightarrow> True | Logged _ \<Rightarrow> True | _ \<Rightarrow> False)"

text \<open>The two calls that commit a buffer to the endpoint.\<close>

definition is_commit :: "event \<Rightarrow> bool" where
  "is_commit e = (case e of Com c _ \<Rightarrow> c = GetBuffer \<or> c = ReleaseBuffer | _ \<Rightarrow> False)"

text \<open>A buffer was committed: \<^verbatim>\<open>ReleaseBuffer\<close> succeeded.\<close>

definition committed :: "event list \<Rightarrow> bool" where
  "committed es =
     list_ex (\<lambda>e. case e of Com c h \<Rightarrow> c = ReleaseBuffer \<and> \<not> FAILED h | _ \<Rightarrow> False) es"

text \<open>The endpoint was restarted: \<^verbatim>\<open>Start\<close> succeeded.\<close>

definition restarted :: "event list \<Rightarrow> bool" where
  "restarted es =
     list_ex (\<lambda>e. case e of Com c h \<Rightarrow> c = Start \<and> \<not> FAILED h | _ \<Rightarrow> False) es"

definition timed_out :: "event list \<Rightarrow> bool" where
  "timed_out es = list_ex (\<lambda>e. case e of Waited w \<Rightarrow> w \<noteq> WAIT_OBJECT_0 | _ \<Rightarrow> False) es"

definition starved :: "event list \<Rightarrow> bool" where
  "starved es = list_ex (\<lambda>e. case e of PlayerChunk _ _ got \<Rightarrow> \<not> got | _ \<Rightarrow> False) es"

text \<open>The values assigned to \<^verbatim>\<open>bufferPosition\<close>, in order.\<close>

definition assigned :: "event list \<Rightarrow> 64 word list" where
  "assigned es = List.map_filter (\<lambda>e. case e of BufferPosition v \<Rightarrow> Some v | _ \<Rightarrow> None) es"

definition count_call :: "call \<Rightarrow> event list \<Rightarrow> nat" where
  "count_call c es = length (filter (\<lambda>e. case e of Com c' _ \<Rightarrow> c' = c | _ \<Rightarrow> False) es)"

definition count_waits :: "event list \<Rightarrow> nat" where
  "count_waits es = length (filter (\<lambda>e. case e of Waited _ \<Rightarrow> True | _ \<Rightarrow> False) es)"

text \<open>An outside in which nothing goes wrong, a 48 kHz stream and the locals of a session
  with a period of 480 frames: the inputs of the examples.\<close>

definition calm :: world where
  "calm = \<lparr>active = True, hr = S_OK, handle = True, buffer_size = 480,
           wait_result = WAIT_OBJECT_0, device_position = 0, device_frequency = 10000000,
           chunk_available = True, chunk_arrived = True\<rparr>"

definition cfg48k :: config where
  "cfg48k = \<lparr>idx = 0, nSamplesPerSec = 48000\<rparr>"

definition session :: state where
  "session = \<lparr>now = 0, bufferFrameCount = 480, position = 0, bufferPosition = 0,
              frequency = 10000000\<rparr>"

text \<open>The locals when \<^verbatim>\<open>worker\<close> is entered, nothing assigned yet (the source leaves
  \<^verbatim>\<open>bufferFrameCount\<close> and \<^verbatim>\<open>frequency\<close> without an initial value; the examples take
  zero), and a configuration that names the second entry of the device list.\<close>

definition unset :: state where
  "unset = \<lparr>now = 0, bufferFrameCount = 0, position = 0, bufferPosition = 0, frequency = 0\<rparr>"

definition cfg_listed :: config where
  "cfg_listed = \<lparr>idx = 2, nSamplesPerSec = 48000\<rparr>"







text \<open>
  Failures. An event is \<open>fatal\<close> when it is a COM call that failed or a handle that
  came back \<^verbatim>\<open>NULL\<close>. \<open>raised_by err e\<close> says that \<open>e\<close> is such an event and
  \<open>err\<close> the exception the worker leaves with after it: the \<^verbatim>\<open>SnapException\<close> of
  \<^verbatim>\<open>CHECK_HR\<close> with the code of the call (\<^verbatim>\<open>E_FAIL\<close> for a handle), and for
  \<^verbatim>\<open>Item\<close>, whose result is not checked, the \<^verbatim>\<open>_com_error(E_POINTER)\<close> of the
  dereference at line 206. A result and a trace are \<open>sound\<close> when an exception of these
  kinds comes from the last event and no other event is fatal.
\<close>

definition fatal :: "event \<Rightarrow> bool" where
  "fatal e = (case e of Com c h \<Rightarrow> FAILED h | Handle _ b \<Rightarrow> \<not> b | _ \<Rightarrow> False)"

definition raised_by :: "error \<Rightarrow> event \<Rightarrow> bool" where
  "raised_by err e =
     (case e of
        Com c h \<Rightarrow>
          FAILED h
          \<and> (if c = Item then err = ComError E_POINTER
             else case err of SnapException h' l \<Rightarrow> h' = h | _ \<Rightarrow> False)
      | Handle _ b \<Rightarrow> \<not> b \<and> (case err of SnapException h' l \<Rightarrow> h' = E_FAIL | _ \<Rightarrow> False)
      | _ \<Rightarrow> False)"

definition sound :: "'a result \<Rightarrow> event list \<Rightarrow> bool" where
  "sound r es =
     (case r of
        Throw err \<Rightarrow>
          (case err of
             DivisionByZero \<Rightarrow> \<not> list_ex fatal es
           | _ \<Rightarrow> es \<noteq> [] \<and> raised_by err (last es) \<and> \<not> list_ex fatal (butlast es))
      | _ \<Rightarrow> \<not> list_ex fatal es)"

definition sound_stmt :: "'a stmt \<Rightarrow> bool" where
  "sound_stmt m = (\<forall>s. case m s of (r, es, s') \<Rightarrow> sound r es)"

text \<open>
  The second attempt of lines 228 to 244, as seen in the events \<open>post\<close> that follow a
  first \<^verbatim>\<open>Initialize\<close> with the answer \<^verbatim>\<open>AUDCLNT_E_BUFFER_SIZE_NOT_ALIGNED\<close>:
  \<^verbatim>\<open>GetBufferSize\<close>, \<^verbatim>\<open>Activate\<close> and \<^verbatim>\<open>Initialize\<close> are called in this order, and
  the first of them that fails is the last event, the worker ending with its
  \<^verbatim>\<open>SnapException\<close>.
\<close>

definition retried :: "unit result \<Rightarrow> event list \<Rightarrow> bool" where
  "retried r post =
     (case post of
        Com GetBufferSize h1 # post1 \<Rightarrow>
          if FAILED h1 then post1 = [] \<and> r = Throw (SnapException h1 232)
          else (case post1 of
                  Com Activate h2 # post2 \<Rightarrow>
                    if FAILED h2 then post2 = [] \<and> r = Throw (SnapException h2 236)
                    else (case post2 of
                            Com Initialize h3 # post3 \<Rightarrow>
                              if FAILED h3 then post3 = [] \<and> r = Throw (SnapException h3 245)
                              else True
                          | _ \<Rightarrow> False)
                | _ \<Rightarrow> False)
      | _ \<Rightarrow> False)"

text \<open>The first \<^verbatim>\<open>Initialize\<close> of a trace: the events before it, its answer and the
  events after it.\<close>

fun first_Initialize :: "event list \<Rightarrow> (event list \<times> HRESULT \<times> event list) option" where
  "first_Initialize [] = None"
| "first_Initialize (e # es) =
     (case e of
        Com c h \<Rightarrow>
          if c = Initialize then Some ([], h, es)
          else map_option (\<lambda>(pre, h', post). (e # pre, h', post)) (first_Initialize es)
      | _ \<Rightarrow> map_option (\<lambda>(pre, h', post). (e # pre, h', post)) (first_Initialize es))"

text \<open>A run is sound up to the second attempt: when the first \<^verbatim>\<open>Initialize\<close> answers
  \<^verbatim>\<open>AUDCLNT_E_BUFFER_SIZE_NOT_ALIGNED\<close>, nothing before it is fatal and what follows is
  the second attempt and sound; otherwise the whole run is sound.\<close>

definition sound_retry :: "unit result \<Rightarrow> event list \<Rightarrow> bool" where
  "sound_retry r es =
     (case first_Initialize es of
        Some (pre, h, post) \<Rightarrow>
          if h = AUDCLNT_E_BUFFER_SIZE_NOT_ALIGNED
          then \<not> list_ex fatal pre \<and> sound r post \<and> retried r post
          else sound r es
      | None \<Rightarrow> sound r es)"

text \<open>The parts of \<^verbatim>\<open>worker\<close> after the lookup of the device: up to the first
  \<^verbatim>\<open>Initialize\<close>, the first \<^verbatim>\<open>Initialize\<close> with the second attempt after
  \<^verbatim>\<open>AUDCLNT_E_BUFFER_SIZE_NOT_ALIGNED\<close>, and the rest.\<close>

definition negotiate :: "env \<Rightarrow> bool \<Rightarrow> unit stmt list" where
  "negotiate env device =
     [arrow device (checked env Activate 207),
      checked env IsFormatSupported 213,
      checked env GetDevicePeriod 218]"

definition realign :: "env \<Rightarrow> bool \<Rightarrow> unit stmt list" where
  "realign env device =
     [checked env GetBufferSize 232,
      arrow device (checked env Activate 236),
      checked env Initialize 245]"

definition initialize :: "env \<Rightarrow> bool \<Rightarrow> unit stmt" where
  "initialize env device =
     bind (com env Initialize) (\<lambda>hres.
       if hres = AUDCLNT_E_BUFFER_SIZE_NOT_ALIGNED then block (realign env device)
       else CHECK_HR hres 245)"

definition start_up :: "env \<Rightarrow> unit stmt list" where
  "start_up env =
     [checked_handle env CreateEvent 250,
      checked env SetEventHandle 252,
      GetBufferSize_bufferFrameCount env 257,
      checked env GetService_IAudioRenderClient 264,
      checked env GetService_IAudioClock 271,
      checked_handle env AvSetMmThreadCharacteristics 278,
      checked env Start 282,
      init_position,
      assign_bufferPosition (\<lambda>_. 0)]"

definition play :: "env \<Rightarrow> config \<Rightarrow> nat \<Rightarrow> unit stmt list" where
  "play env cfg fuel = start_up env @ [GetFrequency env, worker_loop env cfg fuel]"

text \<open>
  The clock and the volume in a trace: whether a chunk was requested, how often the
  frequency of the device clock was read, how often the volume was adjusted; and
  \<open>freq_le n m\<close>, that the statement \<open>m\<close> reads the frequency at most \<open>n\<close> times.
\<close>

definition requested :: "event list \<Rightarrow> bool" where
  "requested es = list_ex (\<lambda>e. case e of PlayerChunk _ _ _ \<Rightarrow> True | _ \<Rightarrow> False) es"

definition count_frequency :: "event list \<Rightarrow> nat" where
  "count_frequency es = length (filter (\<lambda>e. case e of Frequency _ \<Rightarrow> True | _ \<Rightarrow> False) es)"

definition count_volume :: "event list \<Rightarrow> nat" where
  "count_volume es = length (filter (\<lambda>e. case e of Volume _ \<Rightarrow> True | _ \<Rightarrow> False) es)"

definition freq_le :: "nat \<Rightarrow> 'a stmt \<Rightarrow> bool" where
  "freq_le n m = (\<forall>s. count_frequency (fst (snd (m s))) \<le> n)"

text \<open>
  Where the offsets come from. \<open>clocked rate f bp p es\<close> follows a trace with the
  frequency that was read last (\<open>f\<close>, none at first), the value that was assigned to
  \<^verbatim>\<open>bufferPosition\<close> last (\<open>bp\<close>) and the position of the device clock when the
  event before was its reading (\<open>p\<close>). It holds when every request for a chunk comes
  directly after a reading of the position and after a reading of the frequency, and
  its offset is \<open>drift\<close> of these values.
\<close>

fun clocked ::
  "32 word \<Rightarrow> 64 word option \<Rightarrow> 64 word \<Rightarrow> 64 word option \<Rightarrow> event list \<Rightarrow> bool" where
  "clocked rate f bp p [] = True"
| "clocked rate f bp p (e # es) =
     (case e of
        Frequency f' \<Rightarrow> clocked rate (Some f') bp None es
      | BufferPosition v \<Rightarrow> clocked rate f v None es
      | Position p' \<Rightarrow> clocked rate f bp (Some p') es
      | PlayerChunk d n got \<Rightarrow>
          (case (f, p) of (Some fr, Some pos) \<Rightarrow> d = drift bp rate pos fr | _ \<Rightarrow> False)
          \<and> clocked rate f bp None es
      | _ \<Rightarrow> clocked rate f bp None es)"

definition clocked_stmt :: "32 word \<Rightarrow> 'a stmt \<Rightarrow> bool" where
  "clocked_stmt rate m = (\<forall>s p. clocked rate None (bufferPosition s) p (fst (snd (m s))))"

text \<open>The events of the set-up, and the statements that produce only such events and
  assign to \<^verbatim>\<open>bufferPosition\<close> only what they report.\<close>

definition setup_event :: "event \<Rightarrow> bool" where
  "setup_event e =
     (case e of Com _ _ \<Rightarrow> True | Handle _ _ \<Rightarrow> True | BufferPosition _ \<Rightarrow> True | _ \<Rightarrow> False)"

definition setup_stmt :: "'a stmt \<Rightarrow> bool" where
  "setup_stmt m =
     (\<forall>s. case m s of (r, es, s') \<Rightarrow>
        list_all setup_event es \<and> bufferPosition s' = last (bufferPosition s # assigned es))"

text \<open>
  Conditions that the loop absorbs. An event is \<open>pending\<close> when it is a pacing wait
  that timed out or a request that found no chunk; a trace is \<open>logged\<close> when each of
  them is directly followed by its line in the log, and \<open>settled\<close> when it does not
  end with one.
\<close>

definition pending :: "event \<Rightarrow> bool" where
  "pending e =
     (case e of Waited w \<Rightarrow> w \<noteq> WAIT_OBJECT_0 | PlayerChunk _ _ got \<Rightarrow> \<not> got | _ \<Rightarrow> False)"

definition next_is :: "event \<Rightarrow> event list \<Rightarrow> bool" where
  "next_is e es = (case es of [] \<Rightarrow> False | x # _ \<Rightarrow> x = e)"

fun logged :: "event list \<Rightarrow> bool" where
  "logged [] = True"
| "logged (e # es) =
     ((case e of
         Waited w \<Rightarrow>
           w = WAIT_OBJECT_0
           \<or> next_is (Logged ''Got timeout waiting for audio device callback'') es
       | PlayerChunk _ _ got \<Rightarrow> got \<or> next_is (Logged ''Failed to get chunk'') es
       | _ \<Rightarrow> True)
      \<and> logged es)"

definition settled :: "event list \<Rightarrow> bool" where
  "settled es = (es = [] \<or> \<not> pending (last es))"

definition logged_stmt :: "'a stmt \<Rightarrow> bool" where
  "logged_stmt m = (\<forall>s. case m s of (r, es, s') \<Rightarrow> logged es \<and> settled es)"

text \<open>
  Four outsides for the examples, as seen by a run of the loop that starts at time 0.
  In \<open>starving\<close> the stream has no chunk at the first request and one empty poll
  follows; in \<open>timing_out\<close> the first pacing wait returns \<^verbatim>\<open>WAIT_TIMEOUT\<close> and one
  empty poll follows; in the other two the flag is cleared after that empty poll.
\<close>

definition starving :: env where
  "starving t = (if t = 4 then calm\<lparr>chunk_available := False\<rparr>
                 else if t = 8 then calm\<lparr>chunk_arrived := False\<rparr> else calm)"

definition timing_out :: env where
  "timing_out t = (if t = 1 then calm\<lparr>wait_result := 258\<rparr>
                   else if t = 5 then calm\<lparr>chunk_arrived := False\<rparr> else calm)"

definition stopped_starving :: env where
  "stopped_starving t = (if t = 4 then calm\<lparr>chunk_available := False\<rparr>
                         else if t = 8 then calm\<lparr>chunk_arrived := False\<rparr>
                         else if 9 \<le> t then calm\<lparr>active := False\<rparr> else calm)"

definition stopped_timing_out :: env where
  "stopped_timing_out t = (if t = 1 then calm\<lparr>wait_result := 258\<rparr>
                           else if t = 5 then calm\<lparr>chunk_arrived := False\<rparr>
                           else if 6 \<le> t then calm\<lparr>active := False\<rparr> else calm)"

text \<open>
  Two more outsides, as seen by a run of \<^verbatim>\<open>worker\<close> from time 0 on the default device:
  in \<open>misaligned\<close> the first \<^verbatim>\<open>Initialize\<close> answers
  \<^verbatim>\<open>AUDCLNT_E_BUFFER_SIZE_NOT_ALIGNED\<close> and the flag is cleared when the loop is reached;
  in \<open>broken\<close> the \<^verbatim>\<open>Start\<close> of line 281 answers \<^verbatim>\<open>E_FAIL\<close>.
\<close>

definition misaligned :: env where
  "misaligned t = (if t = 5 then calm\<lparr>hr := AUDCLNT_E_BUFFER_SIZE_NOT_ALIGNED\<rparr>
                   else if 17 \<le> t then calm\<lparr>active := False\<rparr> else calm)"

definition broken :: env where
  "broken t = (if t = 12 then calm\<lparr>hr := E_FAIL\<rparr> else calm)"

text \<open>In \<open>unplugged\<close> the device list has no entry at the index asked for: \<^verbatim>\<open>Item\<close>
  (the third call of a run for a listed device) answers \<^verbatim>\<open>E_INVALIDARG\<close>.\<close>

definition unplugged :: env where
  "unplugged t = (if t = 2 then calm\<lparr>hr := 0x80070057\<rparr> else calm)"

text \<open>
  In \<open>retuned\<close> the device clock stands at 5000000 ticks and reports 10 MHz until
  the session is set up and 20 MHz afterwards; the flag is cleared after one pass.
  \<open>scenario\<close> is the end-to-end scenario of the specification as a run of the loop
  from time 0 sees it: five chunks, then none at the sixth request (time 39), three
  polls of 100 ms that find nothing (times 43, 45, 47: the gap of 300 ms), data at the
  fourth poll, five more chunks, and then the stop signal (time 86).
\<close>

definition retuned :: env where
  "retuned t = calm\<lparr>device_position := 5000000,
                  device_frequency := (if t \<le> 13 then 10000000 else 20000000),
                  active := t < 21\<rparr>"

definition scenario :: env where
  "scenario t = (if t = 39 then calm\<lparr>chunk_available := False\<rparr>
                 else if t = 43 \<or> t = 45 \<or> t = 47 then calm\<lparr>chunk_arrived := False\<rparr>
                 else if 86 \<le> t then calm\<lparr>active := False\<rparr> else calm)"

section \<open>The statements of the body, case by case\<close>

lemmas stmt_defs = return_def bind_def break_def observe_def emit_def LOG_def CHECK_HR_def
  com_def checked_def throw_def arrow_def checked_handle_def load_active_def WaitForSingleObject_def
  waitForChunk_def GetFrequency_def GetPosition_def getPlayerChunk_def adjustVolume_def
  memcpy_def assign_bufferPosition_def

lemma not_FAILED_ERROR_TIMEOUT: "\<not> FAILED ERROR_TIMEOUT"
  by (simp add: FAILED_def ERROR_TIMEOUT_def)

lemma checked_eq:
  "checked env c line s =
     (if FAILED (hr (env (now s))) then Throw (SnapException (hr (env (now s))) line) else Normal (),
      [Com c (hr (env (now s)))], s\<lparr>now := Suc (now s)\<rparr>)"
  by (simp add: stmt_defs)

lemma recovery_eq:
  "block (recovery env fuel l1 l2 l3) s =
     (if FAILED (hr (env (now s)))
      then (Throw (SnapException (hr (env (now s))) l1), [Com Stop (hr (env (now s)))],
            s\<lparr>now := Suc (now s)\<rparr>)
      else if FAILED (hr (env (Suc (now s))))
      then (Throw (SnapException (hr (env (Suc (now s)))) l2),
            [Com Stop (hr (env (now s))), Com Reset (hr (env (Suc (now s))))],
            s\<lparr>now := Suc (Suc (now s))\<rparr>)
      else restart env l3 [Com Stop (hr (env (now s))), Com Reset (hr (env (Suc (now s))))]
             (wait_loop env fuel (s\<lparr>now := Suc (Suc (now s))\<rparr>)))"
  by (simp add: recovery_def restart_def checked_eq bind_def return_def assign_bufferPosition_def
      split: prod.splits result.splits)

lemma block_append: "block (xs @ ys) = bind (block xs) (\<lambda>_. block ys)"
  by (induction xs) (auto simp: bind_def return_def fun_eq_iff split: prod.splits result.splits)

lemma iteration_timeout:
  assumes "wait_result (env (now s)) \<noteq> WAIT_OBJECT_0"
  shows "iteration env cfg fuel s =
     (case block (recovery env fuel 300 302 308) (s\<lparr>now := Suc (now s)\<rparr>) of
        (Normal _, es, s') \<Rightarrow>
          (Break, Waited (wait_result (env (now s)))
                  # Logged ''Got timeout waiting for audio device callback'' # es, s')
      | (r, es, s') \<Rightarrow>
          (r, Waited (wait_result (env (now s)))
                  # Logged ''Got timeout waiting for audio device callback'' # es, s'))"
  using assms
  by (simp add: iteration_def block_append stmt_defs not_FAILED_ERROR_TIMEOUT
      split: prod.splits result.splits)

lemma iteration_stopped:
  assumes "wait_result (env (now s)) = WAIT_OBJECT_0" and "\<not> active (env (Suc (now s)))"
  shows "iteration env cfg fuel s =
     (Break, [Waited WAIT_OBJECT_0, Active False], s\<lparr>now := Suc (Suc (now s))\<rparr>)"
  using assms by (simp add: iteration_def stmt_defs)

lemma iteration_division:
  assumes "wait_result (env (now s)) = WAIT_OBJECT_0" and "active (env (Suc (now s)))"
    and "nSamplesPerSec cfg = 0 \<or> frequency s = 0"
  shows "iteration env cfg fuel s =
     (Throw DivisionByZero,
      [Waited WAIT_OBJECT_0, Active True, Position (device_position (env (Suc (Suc (now s)))))],
      s\<lparr>now := Suc (Suc (Suc (now s))), position := device_position (env (Suc (Suc (now s))))\<rparr>)"
  using assms by (auto simp add: iteration_def stmt_defs)

lemma iteration_chunk:
  assumes "wait_result (env (now s)) = WAIT_OBJECT_0" and "active (env (Suc (now s)))"
    and "nSamplesPerSec cfg \<noteq> 0" and "frequency s \<noteq> 0"
    and "chunk_available (env (Suc (Suc (Suc (now s)))))"
  shows "iteration env cfg fuel s =
     (let h1 = hr (env (now s + 4)); h2 = hr (env (now s + 5));
          p = device_position (env (Suc (Suc (now s)))) in
      if FAILED h1 then
        (Throw (SnapException h1 326),
         request env cfg s @ [Volume (bufferFrameCount s), Com GetBuffer h1],
         s\<lparr>position := p, now := now s + 5\<rparr>)
      else if FAILED h2 then
        (Throw (SnapException h2 329),
         request env cfg s @ [Volume (bufferFrameCount s), Com GetBuffer h1, Memcpy, Com ReleaseBuffer h2],
         s\<lparr>position := p, now := now s + 6\<rparr>)
      else
        (Normal (),
         request env cfg s @ [Volume (bufferFrameCount s), Com GetBuffer h1, Memcpy, Com ReleaseBuffer h2,
            BufferPosition (bufferPosition s + ucast (bufferFrameCount s))],
         s\<lparr>position := p, now := now s + 6,
            bufferPosition := bufferPosition s + ucast (bufferFrameCount s)\<rparr>))"
  using assms by (simp add: iteration_def stmt_defs request_def Let_def eval_nat_numeral)

lemma iteration_starved:
  assumes "wait_result (env (now s)) = WAIT_OBJECT_0" and "active (env (Suc (now s)))"
    and "nSamplesPerSec cfg \<noteq> 0" and "frequency s \<noteq> 0"
    and "\<not> chunk_available (env (Suc (Suc (Suc (now s)))))"
  shows "iteration env cfg fuel s =
     (case block (recovery env fuel 339 341 347)
             (s\<lparr>position := device_position (env (Suc (Suc (now s)))), now := now s + 4\<rparr>) of
        (r, es, s') \<Rightarrow> (r, request env cfg s @ Logged ''Failed to get chunk'' # es, s'))"
  using assms
  by (simp add: iteration_def stmt_defs request_def block_append eval_nat_numeral
      split: prod.splits result.splits)


lemma wait_loop_Suc:
  "wait_loop env (Suc fuel) s =
     (if \<not> active (env (now s)) then (Normal (), [Active False], s\<lparr>now := Suc (now s)\<rparr>)
      else if chunk_arrived (env (Suc (now s)))
      then (Normal (), [Active True, ChunkWait True], s\<lparr>now := Suc (Suc (now s))\<rparr>)
      else (case wait_loop env fuel (s\<lparr>now := Suc (Suc (now s))\<rparr>) of
              (r, es, s') \<Rightarrow>
                (r, Active True # ChunkWait False # Logged ''Waiting for chunk'' # es, s')))"
  by (simp add: stmt_defs split: prod.splits result.splits)

lemma wait_loop_0: "wait_loop env 0 s = (OutOfFuel, [], s)"
  by simp

declare wait_loop.simps [simp del]

lemma wait_loop_frame:
  "wait_loop env fuel s = (r, es, s') \<Longrightarrow>
     s' = s\<lparr>now := now s'\<rparr> \<and> now s \<le> now s' \<and> (r = Normal () \<or> r = OutOfFuel)
     \<and> (\<forall>e\<in>set es. quiet e)
     \<and> (Active False \<in> set es \<longrightarrow> (\<exists>u. now s \<le> u \<and> u < now s' \<and> \<not> active (env u)))"
proof (induction fuel arbitrary: s r es s')
  case 0
  then show ?case by (auto simp: wait_loop_0)
next
  case (Suc fuel)
  show ?case
  proof (cases "\<not> active (env (now s)) \<or> chunk_arrived (env (Suc (now s)))")
    case True
    with Suc.prems show ?thesis
      by (auto simp: wait_loop_Suc quiet_def split: if_splits)
  next
    case False
    obtain r1 es1 s1 where w: "wait_loop env fuel (s\<lparr>now := Suc (Suc (now s))\<rparr>) = (r1, es1, s1)"
      by (cases "wait_loop env fuel (s\<lparr>now := Suc (Suc (now s))\<rparr>)") auto
    from Suc.IH [OF w] have ih:
      "s1 = s\<lparr>now := now s1\<rparr>" "Suc (Suc (now s)) \<le> now s1" "r1 = Normal () \<or> r1 = OutOfFuel"
      "\<forall>e\<in>set es1. quiet e"
      "Active False \<in> set es1 \<longrightarrow> (\<exists>u. Suc (Suc (now s)) \<le> u \<and> u < now s1 \<and> \<not> active (env u))"
      by simp_all
    from Suc.prems False w have eq: "r = r1" "s' = s1"
      "es = Active True # ChunkWait False # Logged ''Waiting for chunk'' # es1"
      by (auto simp: wait_loop_Suc)
    have "Active False \<in> set es \<longrightarrow> (\<exists>u. now s \<le> u \<and> u < now s' \<and> \<not> active (env u))"
    proof
      assume "Active False \<in> set es"
      then have "Active False \<in> set es1" by (simp add: eq)
      with ih(5) obtain u where "Suc (Suc (now s)) \<le> u" "u < now s1" "\<not> active (env u)" by blast
      then show "\<exists>u. now s \<le> u \<and> u < now s' \<and> \<not> active (env u)"
        by (intro exI [of _ u]) (simp add: eq)
    qed
    with ih show ?thesis
      by (simp add: eq quiet_def)
  qed
qed



lemma recovery_cases [consumes 1, case_names stop_failed reset_failed fuel start_failed restarted]:
  assumes "block (recovery env fuel l1 l2 l3) s = (r, es, s')"
  obtains
    (stop_failed) "FAILED (hr (env (now s)))"
      "r = Throw (SnapException (hr (env (now s))) l1)"
      "es = [Com Stop (hr (env (now s)))]"
      "s' = s\<lparr>now := Suc (now s)\<rparr>"
  | (reset_failed) "\<not> FAILED (hr (env (now s)))" "FAILED (hr (env (Suc (now s))))"
      "r = Throw (SnapException (hr (env (Suc (now s)))) l2)"
      "es = [Com Stop (hr (env (now s))), Com Reset (hr (env (Suc (now s))))]"
      "s' = s\<lparr>now := Suc (Suc (now s))\<rparr>"
  | (fuel) pes where "\<not> FAILED (hr (env (now s)))" "\<not> FAILED (hr (env (Suc (now s))))"
      "wait_loop env fuel (s\<lparr>now := Suc (Suc (now s))\<rparr>) = (OutOfFuel, pes, s')"
      "r = OutOfFuel"
      "es = [Com Stop (hr (env (now s))), Com Reset (hr (env (Suc (now s))))] @ pes"
  | (start_failed) pes s1 where "\<not> FAILED (hr (env (now s)))" "\<not> FAILED (hr (env (Suc (now s))))"
      "wait_loop env fuel (s\<lparr>now := Suc (Suc (now s))\<rparr>) = (Normal (), pes, s1)"
      "FAILED (hr (env (now s1)))"
      "r = Throw (SnapException (hr (env (now s1))) l3)"
      "es = [Com Stop (hr (env (now s))), Com Reset (hr (env (Suc (now s))))] @ pes
            @ [Com Start (hr (env (now s1)))]"
      "s' = s1\<lparr>now := Suc (now s1)\<rparr>"
  | (restarted) pes s1 where "\<not> FAILED (hr (env (now s)))" "\<not> FAILED (hr (env (Suc (now s))))"
      "wait_loop env fuel (s\<lparr>now := Suc (Suc (now s))\<rparr>) = (Normal (), pes, s1)"
      "\<not> FAILED (hr (env (now s1)))"
      "r = Normal ()"
      "es = [Com Stop (hr (env (now s))), Com Reset (hr (env (Suc (now s))))] @ pes
            @ [Com Start (hr (env (now s1))), BufferPosition 0]"
      "s' = s1\<lparr>now := Suc (now s1), bufferPosition := 0\<rparr>"
proof -
  obtain r1 pes s1 where w: "wait_loop env fuel (s\<lparr>now := Suc (Suc (now s))\<rparr>) = (r1, pes, s1)"
    by (cases "wait_loop env fuel (s\<lparr>now := Suc (Suc (now s))\<rparr>)") auto
  from wait_loop_frame [OF w] have "r1 = Normal () \<or> r1 = OutOfFuel" by simp
  with assms w that show thesis
    by (auto simp: recovery_eq restart_def split: if_splits)
qed

lemma iteration_cases [consumes 1, case_names timeout stopped division getbuffer_failed
    releasebuffer_failed committed starved]:
  assumes "iteration env cfg fuel s = (r, es, s')"
  obtains
    (timeout) r0 es0 where "wait_result (env (now s)) \<noteq> WAIT_OBJECT_0"
      "block (recovery env fuel 300 302 308) (s\<lparr>now := Suc (now s)\<rparr>) = (r0, es0, s')"
      "r = (if r0 = Normal () then Break else r0)"
      "es = Waited (wait_result (env (now s)))
            # Logged ''Got timeout waiting for audio device callback'' # es0"
  | (stopped) "wait_result (env (now s)) = WAIT_OBJECT_0" "\<not> active (env (Suc (now s)))"
      "r = Break" "es = [Waited WAIT_OBJECT_0, Active False]"
      "s' = s\<lparr>now := Suc (Suc (now s))\<rparr>"
  | (division) "wait_result (env (now s)) = WAIT_OBJECT_0" "active (env (Suc (now s)))"
      "nSamplesPerSec cfg = 0 \<or> frequency s = 0"
      "r = Throw DivisionByZero"
      "es = [Waited WAIT_OBJECT_0, Active True, Position (device_position (env (Suc (Suc (now s)))))]"
      "s' = s\<lparr>now := Suc (Suc (Suc (now s))), position := device_position (env (Suc (Suc (now s))))\<rparr>"
  | (getbuffer_failed) "wait_result (env (now s)) = WAIT_OBJECT_0" "active (env (Suc (now s)))"
      "nSamplesPerSec cfg \<noteq> 0" "frequency s \<noteq> 0"
      "chunk_available (env (Suc (Suc (Suc (now s)))))"
      "FAILED (hr (env (now s + 4)))"
      "r = Throw (SnapException (hr (env (now s + 4))) 326)"
      "es = request env cfg s @ [Volume (bufferFrameCount s), Com GetBuffer (hr (env (now s + 4)))]"
      "s' = s\<lparr>position := device_position (env (Suc (Suc (now s)))), now := now s + 5\<rparr>"
  | (releasebuffer_failed) "wait_result (env (now s)) = WAIT_OBJECT_0" "active (env (Suc (now s)))"
      "nSamplesPerSec cfg \<noteq> 0" "frequency s \<noteq> 0"
      "chunk_available (env (Suc (Suc (Suc (now s)))))"
      "\<not> FAILED (hr (env (now s + 4)))" "FAILED (hr (env (now s + 5)))"
      "r = Throw (SnapException (hr (env (now s + 5))) 329)"
      "es = request env cfg s @ [Volume (bufferFrameCount s), Com GetBuffer (hr (env (now s + 4))),
              Memcpy, Com ReleaseBuffer (hr (env (now s + 5)))]"
      "s' = s\<lparr>position := device_position (env (Suc (Suc (now s)))), now := now s + 6\<rparr>"
  | (committed) "wait_result (env (now s)) = WAIT_OBJECT_0" "active (env (Suc (now s)))"
      "nSamplesPerSec cfg \<noteq> 0" "frequency s \<noteq> 0"
      "chunk_available (env (Suc (Suc (Suc (now s)))))"
      "\<not> FAILED (hr (env (now s + 4)))" "\<not> FAILED (hr (env (now s + 5)))"
      "r = Normal ()"
      "es = request env cfg s @ [Volume (bufferFrameCount s), Com GetBuffer (hr (env (now s + 4))),
              Memcpy, Com ReleaseBuffer (hr (env (now s + 5))),
              BufferPosition (bufferPosition s + ucast (bufferFrameCount s))]"
      "s' = s\<lparr>position := device_position (env (Suc (Suc (now s)))), now := now s + 6,
              bufferPosition := bufferPosition s + ucast (bufferFrameCount s)\<rparr>"
  | (starved) es0 where "wait_result (env (now s)) = WAIT_OBJECT_0" "active (env (Suc (now s)))"
      "nSamplesPerSec cfg \<noteq> 0" "frequency s \<noteq> 0"
      "\<not> chunk_available (env (Suc (Suc (Suc (now s)))))"
      "block (recovery env fuel 339 341 347)
         (s\<lparr>position := device_position (env (Suc (Suc (now s)))), now := now s + 4\<rparr>) = (r, es0, s')"
      "es = request env cfg s @ Logged ''Failed to get chunk'' # es0"
proof (cases "wait_result (env (now s)) = WAIT_OBJECT_0")
  case False
  with assms timeout show thesis
    by (auto simp: iteration_timeout split: prod.splits result.splits)
next
  case w: True
  show thesis
  proof (cases "active (env (Suc (now s)))")
    case False
    with assms w stopped show thesis by (simp add: iteration_stopped)
  next
    case a: True
    show thesis
    proof (cases "nSamplesPerSec cfg = 0 \<or> frequency s = 0")
      case True
      with assms w a division show thesis by (simp add: iteration_division)
    next
      case False
      then have nz: "nSamplesPerSec cfg \<noteq> 0" "frequency s \<noteq> 0" by simp_all
      show thesis
      proof (cases "chunk_available (env (Suc (Suc (Suc (now s)))))")
        case True
        from assms show thesis
          unfolding iteration_chunk [OF w a nz True] Let_def
          using w a nz True getbuffer_failed releasebuffer_failed committed
          by (auto split: if_splits)
      next
        case False
        from assms show thesis
          unfolding iteration_starved [OF w a nz False]
          using w a nz False starved by (auto split: prod.splits)
      qed
    qed
  qed
qed

section \<open>The drift\<close>

lemma sint_diff_64: "sint ((a::64 word) - b) = signed_take_bit 63 (uint a - uint b)"
proof -
  have "a - b = word_of_int (uint a - uint b)" by simp
  then have "sint (a - b) = sint (word_of_int (uint a - uint b) :: 64 word)" by simp
  also have "\<dots> = signed_take_bit 63 (uint a - uint b)"
    by (simp only: sint_sbintrunc') simp
  finally show ?thesis .
qed

lemma sint_diff_64_exact:
  assumes "- (2 ^ 63) \<le> uint a - uint b" and "uint (a :: 64 word) - uint b < 2 ^ 63"
  shows "sint (a - b) = uint a - uint b"
  using assms by (simp add: sint_diff_64 signed_take_bit_int_eq_self)

lemma unat_times_million:
  "unat (a::64 word) * 1000000 < 2 ^ 64 \<Longrightarrow> unat (a * 1000000) = unat a * 1000000"
  using unat_mult_lem [of a "1000000 :: 64 word"] by simp

lemma uint_quotient:
  assumes "unat (a::64 word) * 1000000 < 2 ^ 64"
  shows "uint ((a * 1000000) div b) = (uint a * 1000000) div uint b"
proof -
  have "uint ((a * 1000000) div b) = int (unat (a * 1000000) div unat b)"
    by (simp only: uint_nat unat_div)
  also have "\<dots> = int (unat a * 1000000 div unat b)"
    using assms by (simp only: unat_times_million)
  also have "\<dots> = (int (unat a) * 1000000) div int (unat b)"
    by (simp only: zdiv_int of_nat_mult of_nat_numeral)
  finally show ?thesis by (simp only: uint_nat)
qed

text \<open>
  C1, as the code has it. Where neither product leaves 64 bits and the difference of the
  two quotients is a signed 64-bit value, the offset handed to the chunk request is the
  formula of the specification; the example of the specification follows from it.
\<close>

theorem drift_is_formula:
  assumes "rate \<noteq> 0" and "freq \<noteq> 0"
    and "unat bufPos * 1000000 < 2 ^ 64"
    and "unat pos * 1000000 < 2 ^ 64"
    and "- (2 ^ 63) \<le> spec_drift_us (uint bufPos) (uint rate)
                          (uint pos) (uint freq)"
    and "spec_drift_us (uint bufPos) (uint rate)
           (uint pos) (uint freq) < 2 ^ 63"
  shows "microseconds (drift bufPos rate pos freq) =
         spec_drift_us (uint bufPos) (uint rate) (uint pos) (uint freq)"
proof -
  let ?a = "(bufPos * 1000000) div (ucast rate :: 64 word)"
  let ?b = "(pos * 1000000) div freq"
  have rate: "uint (ucast rate :: 64 word) = uint rate"
    by (simp add: uint_up_ucast is_up)
  have a: "uint ?a = (uint bufPos * 1000000) div uint rate"
    using assms(3) by (simp add: uint_quotient rate)
  have b: "uint ?b = (uint pos * 1000000) div uint freq"
    using assms(4) by (simp add: uint_quotient)
  have "sint (?a - ?b) = uint ?a - uint ?b"
    using assms(5,6) by (intro sint_diff_64_exact) (simp_all add: a b spec_drift_us_def)
  then show ?thesis
    by (simp add: microseconds_def drift_def spec_drift_us_def a b)
qed

theorem drift_is_formula_example:
  "microseconds (drift 48000 48000 5000000 10000000) = 500000
   \<and> spec_drift_us 48000 48000 5000000 10000000 = 500000"
  using drift_is_formula [of 48000 10000000 48000 5000000]
  by (simp add: spec_drift_us_def)

text \<open>
  C1 as the specification states it, for every reading, fails: after \<open>18446744073710\<close>
  ticks of a 10 MHz clock the product \<^verbatim>\<open>position * 1000000\<close> no longer fits 64 bits.
\<close>

theorem drift_formula_overflow:
  "microseconds (drift 0 48000 18446744073710 10000000) \<noteq>
   spec_drift_us 0 48000 18446744073710 10000000"
  by (simp add: drift_def microseconds_def spec_drift_us_def)

text \<open>
  C10. The two quotients are 64-bit unsigned values and so is their difference; read as
  a signed 64-bit count of microseconds it is the exact difference of the two quotients
  whenever both are below \<open>2 ^ 63\<close>, also when the second is the larger one.
\<close>

theorem drift_signed_difference:
  assumes "rate \<noteq> 0" and "freq \<noteq> 0"
    and "uint ((bufPos * 1000000) div (ucast rate :: 64 word)) < 2 ^ 63"
    and "uint ((pos * 1000000) div freq) < 2 ^ 63"
  shows "microseconds (drift bufPos rate pos freq) =
         uint ((bufPos * 1000000) div (ucast rate :: 64 word))
         - uint ((pos * 1000000) div freq)"
proof -
  let ?a = "(bufPos * 1000000) div (ucast rate :: 64 word)"
  let ?b = "(pos * 1000000) div freq"
  have "0 \<le> uint ?a" and "0 \<le> uint ?b" by simp_all
  with assms(3,4) have "- (2 ^ 63) \<le> uint ?a - uint ?b" and "uint ?a - uint ?b < 2 ^ 63"
    by linarith+
  then have "sint (?a - ?b) = uint ?a - uint ?b"
    by (rule sint_diff_64_exact)
  then show ?thesis
    by (simp add: microseconds_def drift_def)
qed

theorem drift_signed_difference_negative:
  "microseconds (drift 480 48000 5000000 10000000) = - 490000
   \<and> drift 480 48000 5000000 10000000 = 18446744073709061616"
  using drift_signed_difference [of 48000 10000000 480 5000000]
  by (simp add: drift_def)

section \<open>Traces\<close>

lemma quiet_not:
  assumes "\<forall>e\<in>set es. quiet e"
  shows "\<not> committed es" "\<not> restarted es" "\<not> timed_out es" "\<not> starved es"
    "assigned es = []" "count_call c es = 0" "count_waits es = 0"
    "\<forall>e\<in>set es. \<not> is_commit e"
  using assms
  by (auto simp: committed_def restarted_def timed_out_def starved_def assigned_def count_call_def
      count_waits_def is_commit_def quiet_def list_ex_iff List.map_filter_def filter_empty_conv
      split: event.splits)

lemma assigned_append [simp]: "assigned (xs @ ys) = assigned xs @ assigned ys"
  by (simp add: assigned_def List.map_filter_def)

lemma assigned_Cons:
  "assigned (e # es) = (case e of BufferPosition v \<Rightarrow> v # assigned es | _ \<Rightarrow> assigned es)"
  by (simp add: assigned_def List.map_filter_def split: event.splits)

lemma committed_append [simp]: "committed (xs @ ys) = (committed xs \<or> committed ys)"
  by (simp add: committed_def)

lemma restarted_append [simp]: "restarted (xs @ ys) = (restarted xs \<or> restarted ys)"
  by (simp add: restarted_def)

lemma timed_out_append [simp]: "timed_out (xs @ ys) = (timed_out xs \<or> timed_out ys)"
  by (simp add: timed_out_def)

lemma starved_append [simp]: "starved (xs @ ys) = (starved xs \<or> starved ys)"
  by (simp add: starved_def)

lemma committed_Cons:
  "committed (e # es) = ((case e of Com c h \<Rightarrow> c = ReleaseBuffer \<and> \<not> FAILED h | _ \<Rightarrow> False) \<or> committed es)"
  by (simp add: committed_def)

lemma restarted_Cons:
  "restarted (e # es) = ((case e of Com c h \<Rightarrow> c = Start \<and> \<not> FAILED h | _ \<Rightarrow> False) \<or> restarted es)"
  by (simp add: restarted_def)

lemma timed_out_Cons:
  "timed_out (e # es) = ((case e of Waited w \<Rightarrow> w \<noteq> WAIT_OBJECT_0 | _ \<Rightarrow> False) \<or> timed_out es)"
  by (simp add: timed_out_def)

lemma starved_Cons:
  "starved (e # es) = ((case e of PlayerChunk _ _ got \<Rightarrow> \<not> got | _ \<Rightarrow> False) \<or> starved es)"
  by (simp add: starved_def)

lemma pred_Nil [simp]: "\<not> committed []" "\<not> restarted []" "\<not> timed_out []" "\<not> starved []"
  "assigned [] = []"
  by (simp_all add: committed_def restarted_def timed_out_def starved_def assigned_def List.map_filter_def)

lemmas trace_simps = committed_Cons restarted_Cons timed_out_Cons starved_Cons assigned_Cons

lemma recovery_bufferPosition:
  assumes "block (recovery env fuel l1 l2 l3) s = (r, es, s')"
  shows "bufferPosition s' = (if restarted es then 0 else bufferPosition s)
       \<and> assigned es = (if restarted es then [0] else [])
       \<and> \<not> committed es \<and> \<not> timed_out es \<and> \<not> starved es"
  using assms
proof (cases rule: recovery_cases)
  case stop_failed
  then show ?thesis by (simp add: trace_simps)
next
  case reset_failed
  then show ?thesis by (simp add: trace_simps)
next
  case (fuel pes)
  from wait_loop_frame [OF fuel(3)] have "s' = s\<lparr>now := now s'\<rparr>" "\<forall>e\<in>set pes. quiet e"
    by simp_all
  then have "bufferPosition s' = bufferPosition s"
    by (metis state.select_convs(4) state.surjective state.update_convs(1))
  with quiet_not [OF \<open>\<forall>e\<in>set pes. quiet e\<close>] fuel show ?thesis
    by (simp add: trace_simps)
next
  case (start_failed pes s1)
  from wait_loop_frame [OF start_failed(3)] have "s1 = s\<lparr>now := now s1\<rparr>" "\<forall>e\<in>set pes. quiet e"
    by simp_all
  then have "bufferPosition s1 = bufferPosition s"
    by (metis state.select_convs(4) state.surjective state.update_convs(1))
  with quiet_not [OF \<open>\<forall>e\<in>set pes. quiet e\<close>] start_failed show ?thesis
    by (simp add: trace_simps)
next
  case (restarted pes s1)
  from wait_loop_frame [OF restarted(3)] have "\<forall>e\<in>set pes. quiet e"
    by simp_all
  with quiet_not [OF \<open>\<forall>e\<in>set pes. quiet e\<close>] restarted show ?thesis
    by (simp add: trace_simps)
qed

lemma wait_loop_polls:
  assumes "\<forall>i<n. active (env (now s + 2 * i)) \<and> \<not> chunk_arrived (env (now s + 2 * i + 1))"
  shows "wait_loop env (n + fuel) s =
           (case wait_loop env fuel (s\<lparr>now := now s + 2 * n\<rparr>) of
              (r, es, s') \<Rightarrow> (r, polls n @ es, s'))"
  using assms
proof (induction n arbitrary: s)
  case 0
  then show ?case by simp
next
  case (Suc n)
  from Suc.prems have first: "active (env (now s))" "\<not> chunk_arrived (env (Suc (now s)))"
    by (auto dest: spec [of _ 0])
  have rest: "\<forall>i<n. active (env (now (s\<lparr>now := Suc (Suc (now s))\<rparr>) + 2 * i))
              \<and> \<not> chunk_arrived (env (now (s\<lparr>now := Suc (Suc (now s))\<rparr>) + 2 * i + 1))"
  proof (intro allI impI)
    fix i assume "i < n"
    then have "Suc i < Suc n" by simp
    with Suc.prems have "active (env (now s + 2 * Suc i)) \<and> \<not> chunk_arrived (env (now s + 2 * Suc i + 1))"
      by blast
    then show "active (env (now (s\<lparr>now := Suc (Suc (now s))\<rparr>) + 2 * i))
              \<and> \<not> chunk_arrived (env (now (s\<lparr>now := Suc (Suc (now s))\<rparr>) + 2 * i + 1))"
      by simp
  qed
  show ?case
    using first Suc.IH [OF rest]
    by (simp add: wait_loop_Suc split: prod.splits)
qed

lemma wait_loop_data:
  assumes "\<forall>i<n. active (env (now s + 2 * i)) \<and> \<not> chunk_arrived (env (now s + 2 * i + 1))"
    and "active (env (now s + 2 * n))" and "chunk_arrived (env (now s + 2 * n + 1))"
    and "n < fuel"
  shows "wait_loop env fuel s =
           (Normal (), polls n @ [Active True, ChunkWait True], s\<lparr>now := now s + 2 * n + 2\<rparr>)"
proof -
  from assms(4) obtain k where fuel: "fuel = n + Suc k"
    by (metis add_Suc_right less_iff_Suc_add)
  show ?thesis
    unfolding fuel wait_loop_polls [OF assms(1)]
    using assms(2,3) by (simp add: wait_loop_Suc)
qed

lemma wait_loop_stop:
  assumes "\<forall>i<n. active (env (now s + 2 * i)) \<and> \<not> chunk_arrived (env (now s + 2 * i + 1))"
    and "\<not> active (env (now s + 2 * n))"
    and "n < fuel"
  shows "wait_loop env fuel s =
           (Normal (), polls n @ [Active False], s\<lparr>now := now s + 2 * n + 1\<rparr>)"
proof -
  from assms(3) obtain k where fuel: "fuel = n + Suc k"
    by (metis add_Suc_right less_iff_Suc_add)
  show ?thesis
    unfolding fuel wait_loop_polls [OF assms(1)]
    using assms(2) by (simp add: wait_loop_Suc)
qed

lemma count_call_simps [simp]:
  "count_call c [] = 0"
  "count_call c (xs @ ys) = count_call c xs + count_call c ys"
  "count_call c (e # es) = (case e of Com c' _ \<Rightarrow> if c' = c then 1 else 0 | _ \<Rightarrow> 0) + count_call c es"
  by (simp_all add: count_call_def split: event.splits)

lemma count_waits_simps [simp]:
  "count_waits [] = 0"
  "count_waits (xs @ ys) = count_waits xs + count_waits ys"
  "count_waits (e # es) = (case e of Waited _ \<Rightarrow> 1 | _ \<Rightarrow> 0) + count_waits es"
  by (simp_all add: count_waits_def split: event.splits)

lemma polls_quiet: "\<forall>e\<in>set (polls n). quiet e"
  by (induction n) (simp_all add: quiet_def)

lemmas polls_not = quiet_not [OF polls_quiet]


lemmas example_defs = calm_def cfg48k_def session_def S_OK_def WAIT_OBJECT_0_def FAILED_def
  drift_def

lemma ucast_frames: "unat (ucast (n :: 32 word) :: 64 word) = unat n"
proof -
  have "uint (ucast n :: 64 word) = uint n"
    by (simp add: uint_up_ucast is_up)
  then show ?thesis by (simp only: unat_eq_nat_uint)
qed

section \<open>The position in the stream\<close>

lemma iteration_bufferPosition:
  assumes "iteration env cfg fuel s = (r, es, s')"
  shows "bufferPosition s' =
           (if committed es then bufferPosition s + ucast (bufferFrameCount s)
            else if restarted es then 0 else bufferPosition s)
       \<and> assigned es =
           (if committed es then [bufferPosition s + ucast (bufferFrameCount s)]
            else if restarted es then [0] else [])
       \<and> (committed es \<longrightarrow> r = Normal () \<and> \<not> timed_out es \<and> \<not> starved es)
       \<and> (restarted es \<longrightarrow> timed_out es \<or> starved es)"
  using assms
proof (cases rule: iteration_cases)
  case (timeout r0 es0)
  from recovery_bufferPosition [OF timeout(2)] timeout show ?thesis
    by (simp add: trace_simps)
next
  case stopped
  then show ?thesis by (simp add: trace_simps)
next
  case division
  then show ?thesis by (simp add: trace_simps)
next
  case getbuffer_failed
  then show ?thesis by (simp add: trace_simps request_def)
next
  case releasebuffer_failed
  then show ?thesis by (simp add: trace_simps request_def)
next
  case committed
  then show ?thesis by (simp add: trace_simps request_def WAIT_OBJECT_0_def)
next
  case (starved es0)
  from recovery_bufferPosition [OF starved(6)] starved show ?thesis
    by (simp add: trace_simps request_def WAIT_OBJECT_0_def)
qed

text \<open>
  C2. One pass through the body of the loop changes \<^verbatim>\<open>bufferPosition\<close> in one of two
  ways or not at all. If the pass committed a buffer, the new value is the old one plus
  \<^verbatim>\<open>bufferFrameCount\<close> (in \<^verbatim>\<open>UINT64\<close>; the sum of the two numbers unless that leaves
  64 bits), and the pass neither timed out nor starved. If the pass restarted the
  endpoint, which only a pass that timed out or starved does, the new value is zero. In
  every other pass the value stays, and no other assignment is made.
\<close>

theorem bufferPosition_step:
  assumes "iteration env cfg fuel s = (r, es, s')"
  shows "bufferPosition s' =
           (if committed es then bufferPosition s + ucast (bufferFrameCount s)
            else if restarted es then 0 else bufferPosition s)
       \<and> assigned es =
           (if committed es then [bufferPosition s + ucast (bufferFrameCount s)]
            else if restarted es then [0] else [])
       \<and> (committed es \<longrightarrow> r = Normal () \<and> \<not> timed_out es \<and> \<not> starved es)
       \<and> (restarted es \<longrightarrow> timed_out es \<or> starved es)
       \<and> (committed es \<longrightarrow> unat (bufferPosition s) + unat (bufferFrameCount s) < 2 ^ 64 \<longrightarrow>
            unat (bufferPosition s') = unat (bufferPosition s) + unat (bufferFrameCount s))"
proof -
  note step = iteration_bufferPosition [OF assms]
  have "unat (bufferPosition s') = unat (bufferPosition s) + unat (bufferFrameCount s)"
    if c: "committed es" and small: "unat (bufferPosition s) + unat (bufferFrameCount s) < 2 ^ 64"
  proof -
    from step c have "bufferPosition s' = bufferPosition s + ucast (bufferFrameCount s)" by simp
    moreover have "unat (bufferPosition s + (ucast (bufferFrameCount s) :: 64 word)) =
        unat (bufferPosition s) + unat (ucast (bufferFrameCount s) :: 64 word)"
      using small by (subst unat_add_lem [THEN iffD1]) (simp_all add: ucast_frames)
    ultimately show ?thesis by (simp add: ucast_frames)
  qed
  with step show ?thesis by blast
qed

theorem bufferPosition_step_example:
  "iteration (\<lambda>_. calm) cfg48k 0 session =
     (Normal (),
      [Waited 0, Active True, Position 0, PlayerChunk 0 480 True, Volume 480, Com GetBuffer 0,
       Memcpy, Com ReleaseBuffer 0, BufferPosition 480],
      session\<lparr>now := 6, bufferPosition := 480\<rparr>)
   \<and> bufferPosition (session\<lparr>now := 6, bufferPosition := 480\<rparr>) = bufferPosition session + 480
   \<and> unat (bufferPosition (session\<lparr>now := 6, bufferPosition := 480\<rparr>)) = 0 + 480"
proof -
  have run: "iteration (\<lambda>_. calm) cfg48k 0 session =
     (Normal (),
      [Waited 0, Active True, Position 0, PlayerChunk 0 480 True, Volume 480, Com GetBuffer 0,
       Memcpy, Com ReleaseBuffer 0, BufferPosition 480],
      session\<lparr>now := 6, bufferPosition := 480\<rparr>)"
    by (simp add: iteration_def stmt_defs example_defs)
  have "bufferPosition (session\<lparr>now := 6, bufferPosition := 480\<rparr>) = bufferPosition session + 480"
    using bufferPosition_step [OF run] by (simp add: trace_simps FAILED_def session_def)
  with run show ?thesis by (simp add: session_def)
qed

section \<open>Recovery\<close>

lemma worker_loop_Suc:
  "worker_loop env cfg (Suc fuel) s =
     (if \<not> active (env (now s)) then (Normal (), [Active False], s\<lparr>now := Suc (now s)\<rparr>)
      else case iteration env cfg fuel (s\<lparr>now := Suc (now s)\<rparr>) of
             (Normal _, es, s') \<Rightarrow>
               (case worker_loop env cfg fuel s' of (r, es', s'') \<Rightarrow> (r, Active True # es @ es', s''))
           | (Break, es, s') \<Rightarrow> (Normal (), Active True # es, s')
           | (Throw e, es, s') \<Rightarrow> (Throw e, Active True # es, s')
           | (OutOfFuel, es, s') \<Rightarrow> (OutOfFuel, Active True # es, s'))"
  by (simp add: stmt_defs split: prod.splits result.splits)

lemma worker_loop_0: "worker_loop env cfg 0 s = (OutOfFuel, [], s)"
  by simp

declare worker_loop.simps [simp del]

lemma recovery_after_wait:
  assumes "\<not> FAILED (hr (env (now s)))" and "\<not> FAILED (hr (env (Suc (now s))))"
    and "wait_loop env fuel (s\<lparr>now := Suc (Suc (now s))\<rparr>) = (Normal (), pes, s1)"
  shows "block (recovery env fuel l1 l2 l3) s =
           (if FAILED (hr (env (now s1)))
            then (Throw (SnapException (hr (env (now s1))) l3),
                  Com Stop (hr (env (now s))) # Com Reset (hr (env (Suc (now s)))) # pes
                    @ [Com Start (hr (env (now s1)))],
                  s1\<lparr>now := Suc (now s1)\<rparr>)
            else (Normal (),
                  Com Stop (hr (env (now s))) # Com Reset (hr (env (Suc (now s)))) # pes
                    @ [Com Start (hr (env (now s1))), BufferPosition 0],
                  s1\<lparr>now := Suc (now s1), bufferPosition := 0\<rparr>))"
  using assms by (simp add: recovery_eq restart_def)

lemma starved_then:
  assumes "active (env (now s))"
    and "wait_result (env (now s + 1)) = WAIT_OBJECT_0"
    and "active (env (now s + 2))"
    and "nSamplesPerSec cfg \<noteq> 0" and "frequency s \<noteq> 0"
    and "\<not> chunk_available (env (now s + 4))"
    and "\<not> FAILED (hr (env (now s + 5)))" and "\<not> FAILED (hr (env (now s + 6)))"
    and "wait_loop env fuel (s\<lparr>position := device_position (env (now s + 3)), now := now s + 7\<rparr>)
           = (Normal (), pes, s1)"
  shows "iteration env cfg fuel (s\<lparr>now := Suc (now s)\<rparr>) =
           (if FAILED (hr (env (now s1)))
            then (Throw (SnapException (hr (env (now s1))) 347),
                  [Waited WAIT_OBJECT_0, Active True, Position (device_position (env (now s + 3))),
                   PlayerChunk (drift (bufferPosition s) (nSamplesPerSec cfg)
                     (device_position (env (now s + 3))) (frequency s)) (bufferFrameCount s) False,
                   Logged ''Failed to get chunk'',
                   Com Stop (hr (env (now s + 5))), Com Reset (hr (env (now s + 6)))]
                  @ pes @ [Com Start (hr (env (now s1)))],
                  s1\<lparr>now := Suc (now s1)\<rparr>)
            else (Normal (),
                  [Waited WAIT_OBJECT_0, Active True, Position (device_position (env (now s + 3))),
                   PlayerChunk (drift (bufferPosition s) (nSamplesPerSec cfg)
                     (device_position (env (now s + 3))) (frequency s)) (bufferFrameCount s) False,
                   Logged ''Failed to get chunk'',
                   Com Stop (hr (env (now s + 5))), Com Reset (hr (env (now s + 6)))]
                  @ pes @ [Com Start (hr (env (now s1))), BufferPosition 0],
                  s1\<lparr>now := Suc (now s1), bufferPosition := 0\<rparr>))"
proof -
  let ?s = "s\<lparr>now := Suc (now s)\<rparr>"
  let ?p = "device_position (env (now s + 3))"
  have n: "now s + 1 = Suc (now s)" "now s + 2 = Suc (Suc (now s))"
    "now s + 3 = Suc (Suc (Suc (now s)))" "now s + 4 = Suc (Suc (Suc (Suc (now s))))"
    "now s + 5 = Suc (Suc (Suc (Suc (Suc (now s)))))"
    "now s + 6 = Suc (Suc (Suc (Suc (Suc (Suc (now s))))))"
    "now s + 7 = Suc (Suc (Suc (Suc (Suc (Suc (Suc (now s)))))))"
    by simp_all
  have st: "iteration env cfg fuel ?s =
     (case block (recovery env fuel 339 341 347)
             (?s\<lparr>position := device_position (env (Suc (Suc (now ?s)))), now := now ?s + 4\<rparr>) of
        (r, es, s') \<Rightarrow> (r, request env cfg ?s @ Logged ''Failed to get chunk'' # es, s'))"
    using assms(2-6) by (intro iteration_starved) (simp_all add: n)
  have rec: "block (recovery env fuel 339 341 347)
             (?s\<lparr>position := device_position (env (Suc (Suc (now ?s)))), now := now ?s + 4\<rparr>) =
           (if FAILED (hr (env (now s1)))
            then (Throw (SnapException (hr (env (now s1))) 347),
                  Com Stop (hr (env (now s + 5))) # Com Reset (hr (env (now s + 6))) # pes
                    @ [Com Start (hr (env (now s1)))],
                  s1\<lparr>now := Suc (now s1)\<rparr>)
            else (Normal (),
                  Com Stop (hr (env (now s + 5))) # Com Reset (hr (env (now s + 6))) # pes
                    @ [Com Start (hr (env (now s1))), BufferPosition 0],
                  s1\<lparr>now := Suc (now s1), bufferPosition := 0\<rparr>))"
    using assms(7-9) by (subst recovery_after_wait [where pes = pes and ?s1.0 = s1]) (simp_all add: n)
  show ?thesis
    unfolding st rec using assms(6) by (simp add: request_def n)
qed


lemma timeout_then:
  assumes "wait_result (env (now s + 1)) \<noteq> WAIT_OBJECT_0"
    and "\<not> FAILED (hr (env (now s + 2)))" and "\<not> FAILED (hr (env (now s + 3)))"
    and "wait_loop env fuel (s\<lparr>now := now s + 4\<rparr>) = (Normal (), pes, s1)"
  shows "iteration env cfg fuel (s\<lparr>now := Suc (now s)\<rparr>) =
           (if FAILED (hr (env (now s1)))
            then (Throw (SnapException (hr (env (now s1))) 308),
                  [Waited (wait_result (env (now s + 1))),
                   Logged ''Got timeout waiting for audio device callback'',
                   Com Stop (hr (env (now s + 2))), Com Reset (hr (env (now s + 3)))]
                  @ pes @ [Com Start (hr (env (now s1)))],
                  s1\<lparr>now := Suc (now s1)\<rparr>)
            else (Break,
                  [Waited (wait_result (env (now s + 1))),
                   Logged ''Got timeout waiting for audio device callback'',
                   Com Stop (hr (env (now s + 2))), Com Reset (hr (env (now s + 3)))]
                  @ pes @ [Com Start (hr (env (now s1))), BufferPosition 0],
                  s1\<lparr>now := Suc (now s1), bufferPosition := 0\<rparr>))"
proof -
  let ?s = "s\<lparr>now := Suc (now s)\<rparr>"
  have n: "now s + 1 = Suc (now s)" "now s + 2 = Suc (Suc (now s))"
    "now s + 3 = Suc (Suc (Suc (now s)))" "now s + 4 = Suc (Suc (Suc (Suc (now s))))"
    by simp_all
  have rec: "block (recovery env fuel 300 302 308) (?s\<lparr>now := Suc (now ?s)\<rparr>) =
           (if FAILED (hr (env (now s1)))
            then (Throw (SnapException (hr (env (now s1))) 308),
                  Com Stop (hr (env (now s + 2))) # Com Reset (hr (env (now s + 3))) # pes
                    @ [Com Start (hr (env (now s1)))],
                  s1\<lparr>now := Suc (now s1)\<rparr>)
            else (Normal (),
                  Com Stop (hr (env (now s + 2))) # Com Reset (hr (env (now s + 3))) # pes
                    @ [Com Start (hr (env (now s1))), BufferPosition 0],
                  s1\<lparr>now := Suc (now s1), bufferPosition := 0\<rparr>))"
    using assms(2-4) by (subst recovery_after_wait [where pes = pes and ?s1.0 = s1]) (simp_all add: n)
  have "wait_result (env (now ?s)) \<noteq> WAIT_OBJECT_0"
    using assms(1) by (simp add: n)
  from iteration_timeout [where env = env and s = "?s" and cfg = cfg and fuel = fuel, OF this]
  show ?thesis
    unfolding rec by (simp add: n)
qed

lemma recovery_silent:
  assumes "block (recovery env fuel l1 l2 l3) s = (r, es, s')"
  shows "count_waits es = 0 \<and> \<not> committed es \<and> r \<noteq> Break"
  using assms
proof (cases rule: recovery_cases)
  case (fuel pes)
  from wait_loop_frame [OF fuel(3)] have "\<forall>e\<in>set pes. quiet e" by simp
  from quiet_not [OF this] fuel show ?thesis by (simp add: trace_simps)
next
  case (start_failed pes s1)
  from wait_loop_frame [OF start_failed(3)] have "\<forall>e\<in>set pes. quiet e" by simp
  from quiet_not [OF this] start_failed show ?thesis by (simp add: trace_simps)
next
  case (restarted pes s1)
  from wait_loop_frame [OF restarted(3)] have "\<forall>e\<in>set pes. quiet e" by simp
  from quiet_not [OF this] restarted show ?thesis by (simp add: trace_simps)
qed (simp_all add: trace_simps)

lemma timeout_loop:
  assumes "active (env (now s))" and "wait_result (env (now s + 1)) \<noteq> WAIT_OBJECT_0"
  shows "worker_loop env cfg (Suc fuel) s =
           (case block (recovery env fuel 300 302 308) (s\<lparr>now := now s + 2\<rparr>) of
              (r0, es0, s') \<Rightarrow>
                (r0, Active True # Waited (wait_result (env (now s + 1)))
                     # Logged ''Got timeout waiting for audio device callback'' # es0, s'))"
proof -
  let ?s = "s\<lparr>now := Suc (now s)\<rparr>"
  obtain r0 es0 s' where rec: "block (recovery env fuel 300 302 308) (s\<lparr>now := now s + 2\<rparr>) = (r0, es0, s')"
    by (cases "block (recovery env fuel 300 302 308) (s\<lparr>now := now s + 2\<rparr>)") auto
  from recovery_silent [OF rec] have nb: "r0 \<noteq> Break" by simp
  have "wait_result (env (now ?s)) \<noteq> WAIT_OBJECT_0" using assms(2) by simp
  from iteration_timeout [where env = env and s = "?s" and cfg = cfg and fuel = fuel, OF this]
  have "iteration env cfg fuel ?s =
      ((if r0 = Normal () then Break else r0),
       Waited (wait_result (env (now s + 1)))
       # Logged ''Got timeout waiting for audio device callback'' # es0, s')"
    using rec by (auto split: result.splits)
  then show ?thesis
    unfolding rec using assms(1) nb by (cases r0) (simp_all add: worker_loop_Suc)
qed

text \<open>
  C3. A pass in which the stream has no frames for the requested offset: the worker
  logs it, calls \<^verbatim>\<open>Stop\<close> and \<^verbatim>\<open>Reset\<close>, polls \<^verbatim>\<open>waitForChunk\<close> (here \<open>n\<close> polls
  come back empty while the flag is set, then data is there), calls \<^verbatim>\<open>Start\<close>, assigns
  zero to \<^verbatim>\<open>bufferPosition\<close> and goes on with the next test of the loop. Each of the
  three endpoint calls is made once. The poll interval of 100 ms is a real-time bound
  and not part of the model.
\<close>

theorem starvation_recovery:
  assumes "active (env (now s))"
    and "wait_result (env (now s + 1)) = WAIT_OBJECT_0"
    and "active (env (now s + 2))"
    and "nSamplesPerSec cfg \<noteq> 0" and "frequency s \<noteq> 0"
    and "\<not> chunk_available (env (now s + 4))"
    and "\<not> FAILED (hr (env (now s + 5)))" and "\<not> FAILED (hr (env (now s + 6)))"
    and "\<forall>i<n. active (env (now s + 7 + 2 * i)) \<and> \<not> chunk_arrived (env (now s + 7 + 2 * i + 1))"
    and "active (env (now s + 7 + 2 * n))" and "chunk_arrived (env (now s + 7 + 2 * n + 1))"
    and "\<not> FAILED (hr (env (now s + 7 + 2 * n + 2)))"
    and "n < fuel"
  shows "let es = [Active True, Waited WAIT_OBJECT_0, Active True,
                   Position (device_position (env (now s + 3))),
                   PlayerChunk (drift (bufferPosition s) (nSamplesPerSec cfg)
                     (device_position (env (now s + 3))) (frequency s)) (bufferFrameCount s) False,
                   Logged ''Failed to get chunk'',
                   Com Stop (hr (env (now s + 5))), Com Reset (hr (env (now s + 6)))]
                  @ polls n
                  @ [Active True, ChunkWait True, Com Start (hr (env (now s + 7 + 2 * n + 2))),
                     BufferPosition 0];
             s' = s\<lparr>position := device_position (env (now s + 3)),
                    now := now s + 7 + 2 * n + 3, bufferPosition := 0\<rparr>
         in worker_loop env cfg (Suc fuel) s =
              (case worker_loop env cfg fuel s' of (r, es', s'') \<Rightarrow> (r, es @ es', s''))
            \<and> count_call Stop es = 1 \<and> count_call Reset es = 1 \<and> count_call Start es = 1
            \<and> bufferPosition s' = 0"
proof -
  let ?t = "s\<lparr>position := device_position (env (now s + 3)), now := now s + 7\<rparr>"
  have w: "wait_loop env fuel ?t =
      (Normal (), polls n @ [Active True, ChunkWait True], ?t\<lparr>now := now ?t + 2 * n + 2\<rparr>)"
    using assms(9-11,13) by (intro wait_loop_data) simp_all
  have it: "iteration env cfg fuel (s\<lparr>now := Suc (now s)\<rparr>) =
      (Normal (),
       [Waited WAIT_OBJECT_0, Active True, Position (device_position (env (now s + 3))),
        PlayerChunk (drift (bufferPosition s) (nSamplesPerSec cfg)
          (device_position (env (now s + 3))) (frequency s)) (bufferFrameCount s) False,
        Logged ''Failed to get chunk'',
        Com Stop (hr (env (now s + 5))), Com Reset (hr (env (now s + 6)))]
       @ polls n
       @ [Active True, ChunkWait True, Com Start (hr (env (now s + 7 + 2 * n + 2))), BufferPosition 0],
       s\<lparr>position := device_position (env (now s + 3)),
          now := now s + 7 + 2 * n + 3, bufferPosition := 0\<rparr>)"
    unfolding starved_then [OF assms(1-8) w] using assms(12) by simp
  show ?thesis
    unfolding Let_def worker_loop_Suc it using assms(1)
    by (simp add: polls_not split: prod.splits)
qed


theorem starvation_recovery_example:
  "worker_loop starving cfg48k 3 session =
     (case worker_loop starving cfg48k 2 (session\<lparr>position := 0, now := 12, bufferPosition := 0\<rparr>) of
        (r, es', s'') \<Rightarrow>
          (r, [Active True, Waited 0, Active True, Position 0, PlayerChunk 0 480 False,
               Logged ''Failed to get chunk'', Com Stop 0, Com Reset 0,
               Active True, ChunkWait False, Logged ''Waiting for chunk'',
               Active True, ChunkWait True, Com Start 0, BufferPosition 0] @ es', s''))"
  using starvation_recovery [where env = starving and s = session and cfg = cfg48k and n = 1
      and fuel = 2]
  by (simp add: starving_def example_defs Let_def)

text \<open>
  C4. A pacing wait that does not return \<^verbatim>\<open>WAIT_OBJECT_0\<close>: the worker logs the timeout
  (\<^verbatim>\<open>CHECK_HR(ERROR_TIMEOUT)\<close> does not throw, since \<^verbatim>\<open>ERROR_TIMEOUT\<close> is positive), runs
  the recovery statements and leaves the loop with whatever they give: there is no second
  pacing wait and no commit. When the endpoint calls succeed and data arrives after \<open>n\<close>
  empty polls, the run is the one spelled out, ending with \<^verbatim>\<open>bufferPosition\<close> zero.
\<close>

theorem pacing_timeout_ends_loop:
  assumes "active (env (now s))" and "wait_result (env (now s + 1)) \<noteq> WAIT_OBJECT_0"
  shows "worker_loop env cfg (Suc fuel) s =
           (case block (recovery env fuel 300 302 308) (s\<lparr>now := now s + 2\<rparr>) of
              (r0, es0, s') \<Rightarrow>
                (r0, Active True # Waited (wait_result (env (now s + 1)))
                     # Logged ''Got timeout waiting for audio device callback'' # es0, s'))
       \<and> count_waits (fst (snd (worker_loop env cfg (Suc fuel) s))) = 1
       \<and> \<not> committed (fst (snd (worker_loop env cfg (Suc fuel) s)))
       \<and> (\<not> FAILED (hr (env (now s + 2))) \<longrightarrow> \<not> FAILED (hr (env (now s + 3))) \<longrightarrow>
            (\<forall>i<n. active (env (now s + 4 + 2 * i)) \<and> \<not> chunk_arrived (env (now s + 4 + 2 * i + 1))) \<longrightarrow>
            active (env (now s + 4 + 2 * n)) \<longrightarrow> chunk_arrived (env (now s + 4 + 2 * n + 1)) \<longrightarrow>
            \<not> FAILED (hr (env (now s + 4 + 2 * n + 2))) \<longrightarrow> n < fuel \<longrightarrow>
            worker_loop env cfg (Suc fuel) s =
              (Normal (),
               [Active True, Waited (wait_result (env (now s + 1))),
                Logged ''Got timeout waiting for audio device callback'',
                Com Stop (hr (env (now s + 2))), Com Reset (hr (env (now s + 3)))]
               @ polls n
               @ [Active True, ChunkWait True, Com Start (hr (env (now s + 4 + 2 * n + 2))),
                  BufferPosition 0],
               s\<lparr>now := now s + 4 + 2 * n + 3, bufferPosition := 0\<rparr>))"
proof -
  note loop = timeout_loop [OF assms, of cfg fuel]
  obtain r0 es0 s' where rec: "block (recovery env fuel 300 302 308) (s\<lparr>now := now s + 2\<rparr>) = (r0, es0, s')"
    by (cases "block (recovery env fuel 300 302 308) (s\<lparr>now := now s + 2\<rparr>)") auto
  from recovery_silent [OF rec] have quiet: "count_waits es0 = 0" "\<not> committed es0" by simp_all
  have loop': "worker_loop env cfg (Suc fuel) s =
      (r0, Active True # Waited (wait_result (env (now s + 1)))
           # Logged ''Got timeout waiting for audio device callback'' # es0, s')"
    unfolding loop rec by simp
  have one: "count_waits (fst (snd (worker_loop env cfg (Suc fuel) s))) = 1"
    and none: "\<not> committed (fst (snd (worker_loop env cfg (Suc fuel) s)))"
    unfolding loop' using quiet by (simp_all add: trace_simps)
  have "worker_loop env cfg (Suc fuel) s =
              (Normal (),
               [Active True, Waited (wait_result (env (now s + 1))),
                Logged ''Got timeout waiting for audio device callback'',
                Com Stop (hr (env (now s + 2))), Com Reset (hr (env (now s + 3)))]
               @ polls n
               @ [Active True, ChunkWait True, Com Start (hr (env (now s + 4 + 2 * n + 2))),
                  BufferPosition 0],
               s\<lparr>now := now s + 4 + 2 * n + 3, bufferPosition := 0\<rparr>)"
    if ok: "\<not> FAILED (hr (env (now s + 2)))" "\<not> FAILED (hr (env (now s + 3)))"
      "\<not> FAILED (hr (env (now s + 4 + 2 * n + 2)))"
      and empty: "\<forall>i<n. active (env (now s + 4 + 2 * i)) \<and> \<not> chunk_arrived (env (now s + 4 + 2 * i + 1))"
      and data: "active (env (now s + 4 + 2 * n))" "chunk_arrived (env (now s + 4 + 2 * n + 1))"
      and fuel: "n < fuel"
  proof -
    let ?t = "s\<lparr>now := now s + 4\<rparr>"
    have w: "wait_loop env fuel ?t =
        (Normal (), polls n @ [Active True, ChunkWait True], ?t\<lparr>now := now ?t + 2 * n + 2\<rparr>)"
      using empty data fuel by (intro wait_loop_data) simp_all
    have "iteration env cfg fuel (s\<lparr>now := Suc (now s)\<rparr>) =
        (Break,
         [Waited (wait_result (env (now s + 1))),
          Logged ''Got timeout waiting for audio device callback'',
          Com Stop (hr (env (now s + 2))), Com Reset (hr (env (now s + 3)))]
         @ polls n
         @ [Active True, ChunkWait True, Com Start (hr (env (now s + 4 + 2 * n + 2))),
            BufferPosition 0],
         s\<lparr>now := now s + 4 + 2 * n + 3, bufferPosition := 0\<rparr>)"
      unfolding timeout_then [OF assms(2) ok(1,2) w] using ok(3) by simp
    then show ?thesis
      using assms(1) by (simp add: worker_loop_Suc)
  qed
  with loop one none show ?thesis by blast
qed

theorem pacing_timeout_example:
  "worker_loop timing_out cfg48k 3 session =
     (Normal (),
      [Active True, Waited 258, Logged ''Got timeout waiting for audio device callback'',
       Com Stop 0, Com Reset 0, Active True, ChunkWait False, Logged ''Waiting for chunk'',
       Active True, ChunkWait True, Com Start 0, BufferPosition 0],
      session\<lparr>now := 9, bufferPosition := 0\<rparr>)"
  using pacing_timeout_ends_loop [where env = timing_out and s = session and cfg = cfg48k
      and n = 1 and fuel = 2, THEN conjunct2, THEN conjunct2, THEN conjunct2]
  by (simp add: timing_out_def example_defs)


text \<open>
  C9. The flag is cleared while the worker polls during a recovery, after \<open>n\<close> empty
  polls. The polling loop ends, and the worker still calls \<^verbatim>\<open>Start\<close>. After a
  starvation it then assigns zero to \<^verbatim>\<open>bufferPosition\<close>, reads the flag at the top of
  the loop and only then ends; after a timeout it assigns zero and leaves by \<^verbatim>\<open>break\<close>.
  A \<^verbatim>\<open>Start\<close> that fails throws, as everywhere.
\<close>

theorem stop_during_recovery:
  "(active (env (now s)) \<and> wait_result (env (now s + 1)) = WAIT_OBJECT_0
      \<and> active (env (now s + 2)) \<and> nSamplesPerSec cfg \<noteq> 0 \<and> frequency s \<noteq> 0
      \<and> \<not> chunk_available (env (now s + 4))
      \<and> \<not> FAILED (hr (env (now s + 5))) \<and> \<not> FAILED (hr (env (now s + 6)))
      \<and> (\<forall>i<n. active (env (now s + 7 + 2 * i)) \<and> \<not> chunk_arrived (env (now s + 7 + 2 * i + 1)))
      \<and> \<not> active (env (now s + 7 + 2 * n))
      \<and> \<not> active (env (now s + 7 + 2 * n + 2))
      \<and> n < fuel
    \<longrightarrow>
    worker_loop env cfg (Suc fuel) s =
      (if FAILED (hr (env (now s + 7 + 2 * n + 1)))
       then (Throw (SnapException (hr (env (now s + 7 + 2 * n + 1))) 347),
             [Active True, Waited WAIT_OBJECT_0, Active True,
              Position (device_position (env (now s + 3))),
              PlayerChunk (drift (bufferPosition s) (nSamplesPerSec cfg)
                (device_position (env (now s + 3))) (frequency s)) (bufferFrameCount s) False,
              Logged ''Failed to get chunk'',
              Com Stop (hr (env (now s + 5))), Com Reset (hr (env (now s + 6)))]
             @ polls n
             @ [Active False, Com Start (hr (env (now s + 7 + 2 * n + 1)))],
             s\<lparr>position := device_position (env (now s + 3)), now := now s + 7 + 2 * n + 2\<rparr>)
       else (Normal (),
             [Active True, Waited WAIT_OBJECT_0, Active True,
              Position (device_position (env (now s + 3))),
              PlayerChunk (drift (bufferPosition s) (nSamplesPerSec cfg)
                (device_position (env (now s + 3))) (frequency s)) (bufferFrameCount s) False,
              Logged ''Failed to get chunk'',
              Com Stop (hr (env (now s + 5))), Com Reset (hr (env (now s + 6)))]
             @ polls n
             @ [Active False, Com Start (hr (env (now s + 7 + 2 * n + 1))), BufferPosition 0,
                Active False],
             s\<lparr>position := device_position (env (now s + 3)), bufferPosition := 0,
                now := now s + 7 + 2 * n + 3\<rparr>)))
   \<and>
   (active (env (now s)) \<and> wait_result (env (now s + 1)) \<noteq> WAIT_OBJECT_0
      \<and> \<not> FAILED (hr (env (now s + 2))) \<and> \<not> FAILED (hr (env (now s + 3)))
      \<and> (\<forall>i<n. active (env (now s + 4 + 2 * i)) \<and> \<not> chunk_arrived (env (now s + 4 + 2 * i + 1)))
      \<and> \<not> active (env (now s + 4 + 2 * n))
      \<and> n < fuel
    \<longrightarrow>
    worker_loop env cfg (Suc fuel) s =
      (if FAILED (hr (env (now s + 4 + 2 * n + 1)))
       then (Throw (SnapException (hr (env (now s + 4 + 2 * n + 1))) 308),
             [Active True, Waited (wait_result (env (now s + 1))),
              Logged ''Got timeout waiting for audio device callback'',
              Com Stop (hr (env (now s + 2))), Com Reset (hr (env (now s + 3)))]
             @ polls n
             @ [Active False, Com Start (hr (env (now s + 4 + 2 * n + 1)))],
             s\<lparr>now := now s + 4 + 2 * n + 2\<rparr>)
       else (Normal (),
             [Active True, Waited (wait_result (env (now s + 1))),
              Logged ''Got timeout waiting for audio device callback'',
              Com Stop (hr (env (now s + 2))), Com Reset (hr (env (now s + 3)))]
             @ polls n
             @ [Active False, Com Start (hr (env (now s + 4 + 2 * n + 1))), BufferPosition 0],
             s\<lparr>now := now s + 4 + 2 * n + 2, bufferPosition := 0\<rparr>)))"
proof (intro conjI impI)
  assume h: "active (env (now s)) \<and> wait_result (env (now s + 1)) = WAIT_OBJECT_0
      \<and> active (env (now s + 2)) \<and> nSamplesPerSec cfg \<noteq> 0 \<and> frequency s \<noteq> 0
      \<and> \<not> chunk_available (env (now s + 4))
      \<and> \<not> FAILED (hr (env (now s + 5))) \<and> \<not> FAILED (hr (env (now s + 6)))
      \<and> (\<forall>i<n. active (env (now s + 7 + 2 * i)) \<and> \<not> chunk_arrived (env (now s + 7 + 2 * i + 1)))
      \<and> \<not> active (env (now s + 7 + 2 * n))
      \<and> \<not> active (env (now s + 7 + 2 * n + 2))
      \<and> n < fuel"
  let ?t = "s\<lparr>position := device_position (env (now s + 3)), now := now s + 7\<rparr>"
  have w: "wait_loop env fuel ?t =
      (Normal (), polls n @ [Active False], ?t\<lparr>now := now ?t + 2 * n + 1\<rparr>)"
    using h by (intro wait_loop_stop) simp_all
  from h obtain k where fuel: "fuel = Suc k"
    by (cases fuel) auto
  have it: "iteration env cfg fuel (s\<lparr>now := Suc (now s)\<rparr>) =
           (if FAILED (hr (env (now s + 7 + 2 * n + 1)))
            then (Throw (SnapException (hr (env (now s + 7 + 2 * n + 1))) 347),
                  [Waited WAIT_OBJECT_0, Active True, Position (device_position (env (now s + 3))),
                   PlayerChunk (drift (bufferPosition s) (nSamplesPerSec cfg)
                     (device_position (env (now s + 3))) (frequency s)) (bufferFrameCount s) False,
                   Logged ''Failed to get chunk'',
                   Com Stop (hr (env (now s + 5))), Com Reset (hr (env (now s + 6)))]
                  @ polls n @ [Active False, Com Start (hr (env (now s + 7 + 2 * n + 1)))],
                  s\<lparr>position := device_position (env (now s + 3)), now := now s + 7 + 2 * n + 2\<rparr>)
            else (Normal (),
                  [Waited WAIT_OBJECT_0, Active True, Position (device_position (env (now s + 3))),
                   PlayerChunk (drift (bufferPosition s) (nSamplesPerSec cfg)
                     (device_position (env (now s + 3))) (frequency s)) (bufferFrameCount s) False,
                   Logged ''Failed to get chunk'',
                   Com Stop (hr (env (now s + 5))), Com Reset (hr (env (now s + 6)))]
                  @ polls n @ [Active False, Com Start (hr (env (now s + 7 + 2 * n + 1))), BufferPosition 0],
                  s\<lparr>position := device_position (env (now s + 3)), now := now s + 7 + 2 * n + 2,
                     bufferPosition := 0\<rparr>))"
    using h by (subst starved_then [where pes = "polls n @ [Active False]"
          and ?s1.0 = "?t\<lparr>now := now ?t + 2 * n + 1\<rparr>"]) (simp_all add: w)
  show "worker_loop env cfg (Suc fuel) s =
      (if FAILED (hr (env (now s + 7 + 2 * n + 1)))
       then (Throw (SnapException (hr (env (now s + 7 + 2 * n + 1))) 347),
             [Active True, Waited WAIT_OBJECT_0, Active True,
              Position (device_position (env (now s + 3))),
              PlayerChunk (drift (bufferPosition s) (nSamplesPerSec cfg)
                (device_position (env (now s + 3))) (frequency s)) (bufferFrameCount s) False,
              Logged ''Failed to get chunk'',
              Com Stop (hr (env (now s + 5))), Com Reset (hr (env (now s + 6)))]
             @ polls n
             @ [Active False, Com Start (hr (env (now s + 7 + 2 * n + 1)))],
             s\<lparr>position := device_position (env (now s + 3)), now := now s + 7 + 2 * n + 2\<rparr>)
       else (Normal (),
             [Active True, Waited WAIT_OBJECT_0, Active True,
              Position (device_position (env (now s + 3))),
              PlayerChunk (drift (bufferPosition s) (nSamplesPerSec cfg)
                (device_position (env (now s + 3))) (frequency s)) (bufferFrameCount s) False,
              Logged ''Failed to get chunk'',
              Com Stop (hr (env (now s + 5))), Com Reset (hr (env (now s + 6)))]
             @ polls n
             @ [Active False, Com Start (hr (env (now s + 7 + 2 * n + 1))), BufferPosition 0,
                Active False],
             s\<lparr>position := device_position (env (now s + 3)), bufferPosition := 0,
                now := now s + 7 + 2 * n + 3\<rparr>))"
    unfolding worker_loop_Suc [of env cfg fuel s] it
    using h by (simp add: fuel worker_loop_Suc)
next
  assume h: "active (env (now s)) \<and> wait_result (env (now s + 1)) \<noteq> WAIT_OBJECT_0
      \<and> \<not> FAILED (hr (env (now s + 2))) \<and> \<not> FAILED (hr (env (now s + 3)))
      \<and> (\<forall>i<n. active (env (now s + 4 + 2 * i)) \<and> \<not> chunk_arrived (env (now s + 4 + 2 * i + 1)))
      \<and> \<not> active (env (now s + 4 + 2 * n))
      \<and> n < fuel"
  let ?t = "s\<lparr>now := now s + 4\<rparr>"
  have w: "wait_loop env fuel ?t =
      (Normal (), polls n @ [Active False], ?t\<lparr>now := now ?t + 2 * n + 1\<rparr>)"
    using h by (intro wait_loop_stop) simp_all
  have it: "iteration env cfg fuel (s\<lparr>now := Suc (now s)\<rparr>) =
           (if FAILED (hr (env (now s + 4 + 2 * n + 1)))
            then (Throw (SnapException (hr (env (now s + 4 + 2 * n + 1))) 308),
                  [Waited (wait_result (env (now s + 1))),
                   Logged ''Got timeout waiting for audio device callback'',
                   Com Stop (hr (env (now s + 2))), Com Reset (hr (env (now s + 3)))]
                  @ polls n @ [Active False, Com Start (hr (env (now s + 4 + 2 * n + 1)))],
                  s\<lparr>now := now s + 4 + 2 * n + 2\<rparr>)
            else (Break,
                  [Waited (wait_result (env (now s + 1))),
                   Logged ''Got timeout waiting for audio device callback'',
                   Com Stop (hr (env (now s + 2))), Com Reset (hr (env (now s + 3)))]
                  @ polls n @ [Active False, Com Start (hr (env (now s + 4 + 2 * n + 1))), BufferPosition 0],
                  s\<lparr>now := now s + 4 + 2 * n + 2, bufferPosition := 0\<rparr>))"
    using h by (subst timeout_then [where pes = "polls n @ [Active False]"
          and ?s1.0 = "?t\<lparr>now := now ?t + 2 * n + 1\<rparr>"]) (simp_all add: w)
  show "worker_loop env cfg (Suc fuel) s =
      (if FAILED (hr (env (now s + 4 + 2 * n + 1)))
       then (Throw (SnapException (hr (env (now s + 4 + 2 * n + 1))) 308),
             [Active True, Waited (wait_result (env (now s + 1))),
              Logged ''Got timeout waiting for audio device callback'',
              Com Stop (hr (env (now s + 2))), Com Reset (hr (env (now s + 3)))]
             @ polls n
             @ [Active False, Com Start (hr (env (now s + 4 + 2 * n + 1)))],
             s\<lparr>now := now s + 4 + 2 * n + 2\<rparr>)
       else (Normal (),
             [Active True, Waited (wait_result (env (now s + 1))),
              Logged ''Got timeout waiting for audio device callback'',
              Com Stop (hr (env (now s + 2))), Com Reset (hr (env (now s + 3)))]
             @ polls n
             @ [Active False, Com Start (hr (env (now s + 4 + 2 * n + 1))), BufferPosition 0],
             s\<lparr>now := now s + 4 + 2 * n + 2, bufferPosition := 0\<rparr>))"
    unfolding worker_loop_Suc [of env cfg fuel s] it
    using h by simp
qed

theorem stop_during_recovery_example:
  "worker_loop stopped_starving cfg48k 3 session =
     (Normal (),
      [Active True, Waited 0, Active True, Position 0, PlayerChunk 0 480 False,
       Logged ''Failed to get chunk'', Com Stop 0, Com Reset 0,
       Active True, ChunkWait False, Logged ''Waiting for chunk'',
       Active False, Com Start 0, BufferPosition 0, Active False],
      session\<lparr>now := 12\<rparr>)
   \<and> worker_loop stopped_timing_out cfg48k 3 session =
     (Normal (),
      [Active True, Waited 258, Logged ''Got timeout waiting for audio device callback'',
       Com Stop 0, Com Reset 0, Active True, ChunkWait False, Logged ''Waiting for chunk'',
       Active False, Com Start 0, BufferPosition 0],
      session\<lparr>now := 8\<rparr>)"
  using stop_during_recovery [where env = stopped_starving and s = session and cfg = cfg48k
      and n = 1 and fuel = 2, THEN conjunct1]
    stop_during_recovery [where env = stopped_timing_out and s = session and cfg = cfg48k
      and n = 1 and fuel = 2, THEN conjunct2]
  by (simp add: stopped_starving_def stopped_timing_out_def example_defs)

section \<open>The stop signal\<close>































section \<open>The set-up of the session\<close>

lemma setup_stmtD:
  "setup_stmt m \<Longrightarrow> m s = (r, es, s') \<Longrightarrow>
     list_all setup_event es \<and> bufferPosition s' = last (bufferPosition s # assigned es)"
  by (auto simp: setup_stmt_def split: prod.splits)

lemma last_last: "last (last (x # xs) # ys) = last (x # xs @ ys)"
  by (cases ys) simp_all

lemma setup_bind:
  assumes "setup_stmt m" and "\<And>a. setup_stmt (k a)"
  shows "setup_stmt (bind m k)"
  unfolding setup_stmt_def
proof
  fix s
  obtain r1 es1 s1 where m: "m s = (r1, es1, s1)" by (cases "m s") auto
  note one = setup_stmtD [OF assms(1) m]
  show "case bind m k s of (r, es, s') \<Rightarrow>
      list_all setup_event es \<and> bufferPosition s' = last (bufferPosition s # assigned es)"
  proof (cases r1)
    case (Normal a)
    obtain r2 es2 s2 where k: "k a s1 = (r2, es2, s2)" by (cases "k a s1") auto
    from setup_stmtD [OF assms(2) k] one m Normal k show ?thesis
      by (simp add: bind_def last_last)
  qed (use one m in \<open>simp_all add: bind_def\<close>)
qed

lemma setup_block: "(\<And>m. m \<in> set ms \<Longrightarrow> setup_stmt m) \<Longrightarrow> setup_stmt (block ms)"
proof (induction ms)
  case Nil
  then show ?case by (simp add: setup_stmt_def return_def)
next
  case (Cons m ms)
  have "setup_stmt (bind m (\<lambda>_. block ms))"
    by (rule setup_bind) (simp_all add: Cons)
  then show ?case by simp
qed

lemma setup_if: "setup_stmt a \<Longrightarrow> setup_stmt b \<Longrightarrow> setup_stmt (if c then a else b)"
  by simp

lemma setup_simple:
  "setup_stmt (checked env c line)" "setup_stmt (throw e)"
  "setup_stmt (checked_handle env h line)" "setup_stmt (GetBufferSize_bufferFrameCount env line)"
  "setup_stmt init_position" "setup_stmt (assign_bufferPosition v)" "setup_stmt (com env c)"
  "setup_stmt (CHECK_HR hres line)" "setup_stmt (return a)"
  by (auto simp: setup_stmt_def stmt_defs GetBufferSize_bufferFrameCount_def init_position_def
      Let_def setup_event_def assigned_Cons)

lemma setup_arrow: "setup_stmt m \<Longrightarrow> setup_stmt (arrow p m)"
  by (simp add: arrow_def setup_simple)

lemma setup_lookup_device: "setup_stmt (lookup_device env cfg)"
  unfolding lookup_device_def
  by (intro setup_if setup_bind) (simp_all add: setup_simple)

lemma setup_negotiate: "setup_stmt (block (negotiate env device))"
  unfolding negotiate_def
  by (rule setup_block) (auto simp: setup_simple intro: setup_arrow)

lemma setup_realign: "setup_stmt (block (realign env device))"
  unfolding realign_def
  by (rule setup_block) (auto simp: setup_simple intro: setup_arrow)

lemma setup_initialize: "setup_stmt (initialize env device)"
  unfolding initialize_def
  by (rule setup_bind) (simp_all add: setup_simple setup_realign)

lemma setup_start_up: "setup_stmt (block (start_up env))"
  unfolding start_up_def by (rule setup_block) (auto simp: setup_simple)

section \<open>Failures of the endpoint\<close>

lemma sound_Normal [simp]: "sound (Normal a) es = (\<not> list_ex fatal es)"
  and sound_Break [simp]: "sound Break es = (\<not> list_ex fatal es)"
  and sound_OutOfFuel [simp]: "sound OutOfFuel es = (\<not> list_ex fatal es)"
  and sound_Division [simp]: "sound (Throw DivisionByZero) es = (\<not> list_ex fatal es)"
  by (simp_all add: sound_def)

lemma sound_Throw:
  "err \<noteq> DivisionByZero \<Longrightarrow>
     sound (Throw err) es =
       (es \<noteq> [] \<and> raised_by err (last es) \<and> \<not> list_ex fatal (butlast es))"
  by (cases err) (simp_all add: sound_def)

lemma sound_prepend:
  assumes "\<not> list_ex fatal xs" and "sound r ys"
  shows "sound r (xs @ ys)"
proof (cases r)
  case (Throw e)
  show ?thesis
  proof (cases "e = DivisionByZero")
    case True
    with Throw assms show ?thesis by simp
  next
    case False
    with Throw assms show ?thesis
      by (auto simp: sound_Throw butlast_append)
  qed
qed (use assms in simp_all)

lemma sound_stmtD: "sound_stmt m \<Longrightarrow> m s = (r, es, s') \<Longrightarrow> sound r es"
  by (auto simp: sound_stmt_def split: prod.splits)

lemma sound_stmtI: "(\<And>s r es s'. m s = (r, es, s') \<Longrightarrow> sound r es) \<Longrightarrow> sound_stmt m"
  by (auto simp: sound_stmt_def split: prod.splits)

lemma sound_cast:
  "sound (Throw e :: 'a result) es = sound (Throw e :: 'b result) es"
  "sound (Break :: 'a result) es = sound (Break :: 'b result) es"
  "sound (OutOfFuel :: 'a result) es = sound (OutOfFuel :: 'b result) es"
  by (simp_all add: sound_def)

lemma sound_bind:
  assumes "sound_stmt m" and "\<And>a. sound_stmt (f a)"
  shows "sound_stmt (bind m f)"
proof (rule sound_stmtI)
  fix s r es s' assume b: "bind m f s = (r, es, s')"
  obtain r1 es1 s1 where m: "m s = (r1, es1, s1)" by (cases "m s") auto
  note s1 = sound_stmtD [OF assms(1) m]
  show "sound r es"
  proof (cases r1)
    case (Normal a)
    obtain r2 es2 s2 where f: "f a s1 = (r2, es2, s2)" by (cases "f a s1") auto
    from b m Normal f have "r = r2" "es = es1 @ es2" by (simp_all add: bind_def)
    with s1 Normal sound_stmtD [OF assms(2) f] show ?thesis
      by (simp add: sound_prepend)
  next
    case Break
    with b m s1 show ?thesis by (auto simp: bind_def)
  next
    case (Throw e)
    with b m have "r = Throw e" "es = es1" by (simp_all add: bind_def)
    with s1 Throw show ?thesis by (simp add: sound_cast(1) [where 'a = 'b and 'b = 'a])
  next
    case OutOfFuel
    with b m s1 show ?thesis by (auto simp: bind_def)
  qed
qed

lemma sound_block: "(\<And>m. m \<in> set ms \<Longrightarrow> sound_stmt m) \<Longrightarrow> sound_stmt (block ms)"
proof (induction ms)
  case Nil
  then show ?case by (simp add: sound_stmt_def return_def)
next
  case (Cons m ms)
  have "sound_stmt (bind m (\<lambda>_. block ms))"
    by (rule sound_bind) (simp_all add: Cons)
  then show ?case by simp
qed

lemma sound_if: "sound_stmt a \<Longrightarrow> sound_stmt b \<Longrightarrow> sound_stmt (if c then a else b)"
  by simp

lemma sound_checked: "c \<noteq> Item \<Longrightarrow> sound_stmt (checked env c line)"
  by (auto simp: sound_stmt_def checked_eq sound_def fatal_def raised_by_def)

lemma sound_checked_handle: "sound_stmt (checked_handle env c line)"
  by (auto simp: sound_stmt_def stmt_defs sound_def fatal_def raised_by_def E_FAIL_def FAILED_def)

lemma sound_simple:
  "sound_stmt (LOG msg)" "sound_stmt adjustVolume" "sound_stmt memcpy"
  "sound_stmt (assign_bufferPosition v)" "sound_stmt (GetFrequency env)"
  "sound_stmt (GetPosition env)" "sound_stmt (getPlayerChunk env cfg)"
  "sound_stmt (WaitForSingleObject env)" "sound_stmt (waitForChunk env)"
  "sound_stmt (load_active env)" "sound_stmt break" "sound_stmt (return a)"
  "sound_stmt init_position" "sound_stmt (CHECK_HR ERROR_TIMEOUT line)"
  by (auto simp: sound_stmt_def stmt_defs fatal_def init_position_def not_FAILED_ERROR_TIMEOUT)

lemma sound_GetBufferSize: "sound_stmt (GetBufferSize_bufferFrameCount env line)"
  by (auto simp: sound_stmt_def GetBufferSize_bufferFrameCount_def Let_def sound_def fatal_def
      raised_by_def)

lemma sound_wait_loop: "sound_stmt (wait_loop env fuel)"
proof (rule sound_stmtI)
  fix s r es s' assume "wait_loop env fuel s = (r, es, s')"
  from wait_loop_frame [OF this] show "sound r es"
    by (auto simp: quiet_def fatal_def list_ex_iff split: event.splits)
qed

lemma sound_iteration: "sound_stmt (iteration env cfg fuel)"
  unfolding iteration_def recovery_def
  by (intro sound_bind sound_if sound_block sound_simple)
     (auto simp: sound_simple sound_checked sound_wait_loop)

lemma sound_worker_loop: "sound_stmt (worker_loop env cfg fuel)"
proof (induction fuel)
  case 0
  then show ?case by (simp add: sound_stmt_def worker_loop_0)
next
  case (Suc fuel)
  show ?case
  proof (rule sound_stmtI)
    fix s r es s' assume w: "worker_loop env cfg (Suc fuel) s = (r, es, s')"
    show "sound r es"
    proof (cases "active (env (now s))")
      case False
      with w show ?thesis by (auto simp: worker_loop_Suc fatal_def)
    next
      case True
      obtain r1 es1 s1 where it: "iteration env cfg fuel (s\<lparr>now := Suc (now s)\<rparr>) = (r1, es1, s1)"
        by (cases "iteration env cfg fuel (s\<lparr>now := Suc (now s)\<rparr>)") auto
      note one = sound_stmtD [OF sound_iteration it]
      have a: "\<not> list_ex fatal [Active True]" by (simp add: fatal_def)
      show ?thesis
      proof (cases r1)
        case (Normal u)
        obtain r2 es2 s2 where rest: "worker_loop env cfg fuel s1 = (r2, es2, s2)"
          by (cases "worker_loop env cfg fuel s1") auto
        from w True it Normal rest have "r = r2" "es = [Active True] @ es1 @ es2"
          by (auto simp: worker_loop_Suc)
        with one Normal sound_stmtD [OF Suc.IH rest] a show ?thesis
          by (simp only: ) (intro sound_prepend; simp)
      next
        case Break
        with w True it one show ?thesis by (auto simp: worker_loop_Suc fatal_def)
      next
        case (Throw e)
        with w True it have "r = Throw e" "es = [Active True] @ es1"
          by (auto simp: worker_loop_Suc)
        with one Throw a show ?thesis by (simp only: ) (intro sound_prepend; simp)
      next
        case OutOfFuel
        with w True it one show ?thesis by (auto simp: worker_loop_Suc fatal_def)
      qed
    qed
  qed
qed


lemma arrow_simps [simp]:
  "arrow True m = m" "arrow False m = throw (ComError E_POINTER)"
  by (simp_all add: arrow_def)

lemma bind_throw: "bind (throw e) k = throw e"
  by (simp add: bind_def throw_def fun_eq_iff)

lemma bind_return: "bind (return a) k = k a"
  by (simp add: bind_def return_def fun_eq_iff split: prod.splits)

lemma bind_assoc: "bind (bind m f) g = bind m (\<lambda>a. bind (f a) g)"
  by (auto simp: bind_def fun_eq_iff split: prod.splits result.splits)

lemma bind_com:
  "bind (com env c) f s =
     (case f (hr (env (now s))) (s\<lparr>now := Suc (now s)\<rparr>) of
        (r, es, s') \<Rightarrow> (r, Com c (hr (env (now s))) # es, s'))"
  by (simp add: bind_def com_def observe_def split: prod.splits)

lemma bind_CHECK_HR:
  "bind (CHECK_HR h l) k s =
     (if FAILED h then (Throw (SnapException h l), [], s) else k () s)"
  by (simp add: bind_def CHECK_HR_def split: prod.splits)

lemma worker_split:
  "worker env cfg fuel =
     bind (checked env CoCreateInstance 186) (\<lambda>_.
       bind (lookup_device env cfg) (\<lambda>device.
         bind (block (negotiate env device)) (\<lambda>_.
           bind (initialize env device) (\<lambda>_. block (play env cfg fuel)))))"
proof -
  have "worker env cfg fuel =
      bind (checked env CoCreateInstance 186) (\<lambda>_.
        bind (lookup_device env cfg) (\<lambda>device.
          block (negotiate env device @ initialize env device # play env cfg fuel)))"
    unfolding worker_def negotiate_def initialize_def realign_def play_def start_up_def by simp
  then show ?thesis by (simp add: block_append)
qed

lemma sound_negotiate: "sound_stmt (block (negotiate env True))"
  unfolding negotiate_def by (intro sound_block) (auto simp: sound_checked)

lemma sound_realign: "sound_stmt (block (realign env True))"
  unfolding realign_def by (intro sound_block) (auto simp: sound_checked)

lemma sound_play: "sound_stmt (block (play env cfg fuel))"
  unfolding play_def start_up_def
  by (intro sound_block)
     (auto simp: sound_checked sound_checked_handle sound_GetBufferSize sound_simple sound_worker_loop)

lemma checked_no_Initialize:
  "c \<noteq> Initialize \<Longrightarrow> checked env c line s = (r, es, s') \<Longrightarrow> count_call Initialize es = 0"
  by (auto simp: checked_eq count_call_def split: if_splits)

lemma negotiate_no_Initialize:
  "block (negotiate env True) s = (r, es, s') \<Longrightarrow> count_call Initialize es = 0"
  by (auto simp: negotiate_def checked_eq bind_def return_def count_call_def split: if_splits)

lemma first_Initialize_none:
  "count_call Initialize es = 0 \<Longrightarrow> first_Initialize es = None"
  by (induction es) (auto simp: count_call_def split: event.splits if_splits)

lemma first_Initialize_append:
  "count_call Initialize xs = 0 \<Longrightarrow>
     first_Initialize (xs @ ys) =
       map_option (\<lambda>(pre, h, post). (xs @ pre, h, post)) (first_Initialize ys)"
proof (induction xs)
  case Nil
  show ?case by (cases "first_Initialize ys") auto
next
  case (Cons e xs)
  then have "count_call Initialize xs = 0"
    by (auto simp: count_call_def split: event.splits if_splits)
  from Cons.IH [OF this] Cons.prems show ?case
    by (cases "first_Initialize ys") (auto simp: count_call_def split: event.splits if_splits)
qed

lemma first_Initialize_split:
  "count_call Initialize pre = 0 \<Longrightarrow>
     first_Initialize (pre @ Com Initialize h # post) = Some (pre, h, post)"
  by (simp add: first_Initialize_append)

lemma first_Initialize_Some:
  "first_Initialize es = Some (pre, h, post) \<Longrightarrow>
     es = pre @ Com Initialize h # post \<and> count_call Initialize pre = 0"
  by (induction es arbitrary: pre)
     (auto simp: count_call_def split: event.splits if_splits)

lemma sound_retry_plain:
  "sound r es \<Longrightarrow> count_call Initialize es = 0 \<Longrightarrow> sound_retry r es"
  by (simp add: sound_retry_def first_Initialize_none)

lemma sound_retry_prepend:
  assumes "\<not> list_ex fatal xs" and "count_call Initialize xs = 0" and "sound_retry r ys"
  shows "sound_retry r (xs @ ys)"
  using assms
  by (auto simp: sound_retry_def first_Initialize_append sound_prepend split: option.splits)

lemma sound_retry_bind:
  assumes m: "sound_stmt m"
    and none: "\<And>s r es s'. m s = (r, es, s') \<Longrightarrow> count_call Initialize es = 0"
    and k: "\<And>a s r es s'. k a s = (r, es, s') \<Longrightarrow> sound_retry r es"
    and b: "bind m k s = (r, es, s')"
  shows "sound_retry r es"
proof -
  obtain r1 es1 s1 where ms: "m s = (r1, es1, s1)" by (cases "m s") auto
  note s1 = sound_stmtD [OF m ms]
  note n1 = none [OF ms]
  show ?thesis
  proof (cases r1)
    case (Normal a)
    obtain r2 es2 s2 where ks: "k a s1 = (r2, es2, s2)" by (cases "k a s1") auto
    from b ms Normal ks have "r = r2" "es = es1 @ es2" by (simp_all add: bind_def)
    with s1 Normal n1 k [OF ks] show ?thesis by (simp add: sound_retry_prepend)
  next
    case Break
    with b ms s1 n1 show ?thesis by (auto simp: bind_def intro: sound_retry_plain)
  next
    case (Throw e)
    with b ms have "r = Throw e" "es = es1" by (simp_all add: bind_def)
    with s1 Throw n1 show ?thesis
      by (auto simp: sound_cast(1) [where 'a = unit and 'b = 'a] intro: sound_retry_plain)
  next
    case OutOfFuel
    with b ms s1 n1 show ?thesis by (auto simp: bind_def intro: sound_retry_plain)
  qed
qed

lemma retried_realign:
  assumes "bind (block (realign env True)) k s = (r, es, s')"
  shows "retried r es"
  using assms
  by (auto simp: realign_def checked_def bind_assoc bind_com bind_CHECK_HR bind_return
      retried_def split: prod.splits if_splits)

lemma initialize_tail:
  assumes "bind (initialize env True) (\<lambda>_. block (play env cfg fuel)) s = (r, es, s')"
  shows "sound_retry r es"
proof (cases "hr (env (now s)) = AUDCLNT_E_BUFFER_SIZE_NOT_ALIGNED")
  case False
  let ?rest = "bind (checked env Initialize 245) (\<lambda>_. block (play env cfg fuel))"
  have "sound_stmt ?rest"
    by (intro sound_bind sound_play) (simp add: sound_checked)
  moreover have eq: "?rest s = (r, es, s')"
    using False assms by (simp add: initialize_def checked_def bind_assoc bind_com)
  ultimately have "sound r es" by (rule sound_stmtD)
  moreover from eq obtain es' where "es = Com Initialize (hr (env (now s))) # es'"
    by (auto simp: checked_def bind_assoc bind_com split: prod.splits)
  ultimately show ?thesis using False by (simp add: sound_retry_def)
next
  case True
  let ?s = "s\<lparr>now := Suc (now s)\<rparr>"
  let ?rest = "bind (block (realign env True)) (\<lambda>_. block (play env cfg fuel))"
  obtain r3 es3 s3 where b: "?rest ?s = (r3, es3, s3)" by (cases "?rest ?s") auto
  have "sound_stmt ?rest"
    by (intro sound_bind sound_play sound_realign)
  from sound_stmtD [OF this b] have s3: "sound r3 es3" .
  from assms True b
  have "r = r3" "es = Com Initialize AUDCLNT_E_BUFFER_SIZE_NOT_ALIGNED # es3"
    by (simp_all add: initialize_def bind_assoc bind_com)
  with s3 retried_realign [OF b] show ?thesis by (simp add: sound_retry_def)
qed

lemma device_tail:
  assumes "bind (block (negotiate env True))
             (\<lambda>_. bind (initialize env True) (\<lambda>_. block (play env cfg fuel))) s = (r, es, s')"
  shows "sound_retry r es"
proof (rule sound_retry_bind [OF sound_negotiate _ _ assms])
  show "count_call Initialize es = 0" if "block (negotiate env True) s = (r, es, s')"
    for s r es s' using that by (rule negotiate_no_Initialize)
  show "sound_retry r es"
    if "bind (initialize env True) (\<lambda>_. block (play env cfg fuel)) s = (r, es, s')"
    for s r es s' using that by (rule initialize_tail)
qed

lemma checked_tail:
  assumes c: "c \<noteq> Item" "c \<noteq> Initialize"
    and k: "\<And>s r es s'. k s = (r, es, s') \<Longrightarrow> sound_retry r es"
    and b: "bind (checked env c line) (\<lambda>_. k) s = (r, es, s')"
  shows "sound_retry r es"
proof (rule sound_retry_bind [OF sound_checked [OF c(1)] _ _ b])
  show "count_call Initialize es = 0" if "checked env c line s = (r, es, s')"
    for s r es s' using c(2) that by (rule checked_no_Initialize)
  show "sound_retry r es" if "k s = (r, es, s')" for s r es s' using that by (rule k)
qed

lemma no_device_tail:
  "bind (block (negotiate env False)) k = throw (ComError E_POINTER)"
  by (simp add: negotiate_def bind_throw)

lemma lookup_tail:
  assumes k: "\<And>s r es s'. k True s = (r, es, s') \<Longrightarrow> sound_retry r es"
    and kF: "k False = throw (ComError E_POINTER)"
    and b: "bind (lookup_device env cfg) k s = (r, es, s')"
  shows "sound_retry r es"
proof (cases "idx cfg = 0")
  case True
  with b have b': "bind (checked env GetDefaultAudioEndpoint 193) (\<lambda>_. k True) s = (r, es, s')"
    by (simp add: lookup_device_def bind_assoc bind_return)
  show ?thesis by (rule checked_tail [OF _ _ k b']) simp_all
next
  case False
  let ?item = "bind (com env Item) (\<lambda>hres. k (\<not> FAILED hres))"
  from False b have b': "bind (checked env EnumAudioEndpoints 199) (\<lambda>_. ?item) s = (r, es, s')"
    by (simp add: lookup_device_def bind_assoc bind_return)
  have item: "sound_retry r es" if i: "?item s = (r, es, s')" for s r es s'
  proof (cases "FAILED (hr (env (now s)))")
    case True
    with i kF have "r = Throw (ComError E_POINTER)" "es = [Com Item (hr (env (now s)))]"
      by (simp_all add: bind_com throw_def)
    with True show ?thesis
      by (intro sound_retry_plain) (simp_all add: sound_Throw raised_by_def count_call_def)
  next
    case False
    let ?s = "s\<lparr>now := Suc (now s)\<rparr>"
    obtain r2 es2 s2 where ks: "k True ?s = (r2, es2, s2)" by (cases "k True ?s") auto
    with i False have "r = r2" "es = [Com Item (hr (env (now s)))] @ es2"
      by (simp_all add: bind_com)
    with False k [OF ks] show ?thesis
      by (simp only: ) (intro sound_retry_prepend; simp add: fatal_def count_call_def)
  qed
  show ?thesis by (rule checked_tail [OF _ _ item b']) simp_all
qed

lemma worker_cases:
  assumes "worker env cfg fuel s = (r, es, s')"
  shows "sound_retry r es"
proof -
  let ?k = "\<lambda>device. bind (block (negotiate env device))
              (\<lambda>_. bind (initialize env device) (\<lambda>_. block (play env cfg fuel)))"
  have look: "sound_retry r es" if "bind (lookup_device env cfg) ?k s = (r, es, s')" for s r es s'
    using device_tail no_device_tail that by (rule lookup_tail)
  from assms
  have b: "bind (checked env CoCreateInstance 186) (\<lambda>_. bind (lookup_device env cfg) ?k) s
      = (r, es, s')"
    by (simp only: worker_split)
  show ?thesis by (rule checked_tail [OF _ _ look b]) simp_all
qed

lemma sound_abort:
  assumes "sound r es" and "es = pre @ e # post" and "fatal e"
  shows "post = [] \<and> (\<exists>err. r = Throw err \<and> raised_by err e)"
proof -
  from assms(2,3) have "list_ex fatal es" by (auto simp: list_ex_iff)
  with assms(1) obtain err where r: "r = Throw err" and d: "err \<noteq> DivisionByZero"
    by (cases r rule: result.exhaust; simp) (metis sound_Division)
  with assms(1) have l: "raised_by err (last es)" and b: "\<not> list_ex fatal (butlast es)"
    by (simp_all add: sound_Throw)
  have "post = []"
  proof (rule ccontr)
    assume "post \<noteq> []"
    then have "butlast es = pre @ e # butlast post"
      by (simp add: assms(2) butlast_append)
    with b assms(3) show False by (auto simp: list_ex_iff)
  qed
  with l r assms(2) show ?thesis by simp
qed

lemma raised_by_Com:
  "raised_by err (Com c h) =
     (FAILED h \<and> (if c = Item then err = ComError E_POINTER else \<exists>l. err = SnapException h l))"
  by (cases err) (auto simp: raised_by_def)


lemma setup_not_pending: "setup_event e \<Longrightarrow> \<not> pending e"
  by (auto simp: setup_event_def pending_def split: event.splits)

lemma quiet_not_pending: "quiet e \<Longrightarrow> \<not> pending e"
  by (auto simp: quiet_def pending_def split: event.splits)

lemma logged_calm: "\<forall>e\<in>set es. \<not> pending e \<Longrightarrow> logged es"
  by (induction es) (auto simp: pending_def split: event.splits)

lemma settled_calm: "\<forall>e\<in>set es. \<not> pending e \<Longrightarrow> settled es"
  by (auto simp: settled_def)

lemma logged_Cons_calm: "\<not> pending e \<Longrightarrow> logged (e # es) = logged es"
  by (auto simp: pending_def split: event.splits)

lemma next_is_append: "xs \<noteq> [] \<Longrightarrow> next_is e (xs @ ys) = next_is e xs"
  by (cases xs) (simp_all add: next_is_def)

lemma settled_append: "settled xs \<Longrightarrow> settled ys \<Longrightarrow> settled (xs @ ys)"
  by (cases "ys = []") (auto simp: settled_def)

lemma settled_Cons: "\<not> pending e \<Longrightarrow> settled es \<Longrightarrow> settled (e # es)"
  by (auto simp: settled_def)

lemma logged_append:
  "logged xs \<Longrightarrow> logged ys \<Longrightarrow> settled xs \<Longrightarrow> logged (xs @ ys)"
proof (induction xs)
  case (Cons e xs)
  show ?case
  proof (cases "xs = []")
    case True
    with Cons.prems have "\<not> pending e" by (simp add: settled_def)
    with Cons.prems True show ?thesis by (simp add: logged_Cons_calm del: logged.simps)
  next
    case False
    with Cons.prems have "settled xs" by (simp add: settled_def)
    with Cons have "logged (xs @ ys)" by simp
    with Cons.prems False show ?thesis
      by (auto simp: next_is_append split: event.splits)
  qed
qed simp

lemma recovery_calm:
  assumes "block (recovery env fuel l1 l2 l3) s = (r, es, s')"
  shows "\<forall>e\<in>set es. \<not> pending e"
  using assms
proof (cases rule: recovery_cases)
  case (fuel pes)
  from wait_loop_frame [OF fuel(3)] have "\<forall>e\<in>set pes. \<not> pending e"
    by (auto dest: quiet_not_pending)
  with fuel show ?thesis by (auto simp: pending_def)
next
  case (start_failed pes s1)
  from wait_loop_frame [OF start_failed(3)] have "\<forall>e\<in>set pes. \<not> pending e"
    by (auto dest: quiet_not_pending)
  with start_failed show ?thesis by (auto simp: pending_def)
next
  case (restarted pes s1)
  from wait_loop_frame [OF restarted(3)] have "\<forall>e\<in>set pes. \<not> pending e"
    by (auto dest: quiet_not_pending)
  with restarted show ?thesis by (auto simp: pending_def)
qed (simp_all add: pending_def)

lemma iteration_logged:
  assumes "iteration env cfg fuel s = (r, es, s')"
  shows "logged es \<and> settled es"
  using assms
proof (cases rule: iteration_cases)
  case (timeout r0 es0)
  note c = recovery_calm [OF timeout(2)]
  from logged_calm [OF c] settled_calm [OF c] timeout show ?thesis
    by (auto simp: next_is_def settled_def pending_def)
next
  case (starved es0)
  note c = recovery_calm [OF starved(6)]
  from logged_calm [OF c] settled_calm [OF c] starved show ?thesis
    by (auto simp: request_def next_is_def settled_def pending_def)
qed (simp_all add: request_def next_is_def settled_def pending_def)

lemma worker_loop_logged:
  "worker_loop env cfg fuel s = (r, es, s') \<Longrightarrow> logged es \<and> settled es"
proof (induction fuel arbitrary: s r es s')
  case 0
  then show ?case by (simp add: worker_loop_0 settled_def)
next
  case (Suc fuel)
  have a: "\<not> pending (Active b)" for b by (simp add: pending_def)
  show ?case
  proof (cases "active (env (now s))")
    case False
    with Suc.prems show ?thesis by (auto simp: worker_loop_Suc settled_def pending_def)
  next
    case True
    let ?s = "s\<lparr>now := Suc (now s)\<rparr>"
    obtain r1 es1 s1 where it: "iteration env cfg fuel ?s = (r1, es1, s1)"
      by (cases "iteration env cfg fuel ?s") auto
    note one = iteration_logged [OF it]
    show ?thesis
    proof (cases "r1 = Normal ()")
      case False
      with Suc.prems True it have "es = Active True # es1"
        by (cases r1) (auto simp: worker_loop_Suc)
      with one show ?thesis by (simp add: settled_Cons a)
    next
      case n: True
      obtain r2 es2 s2 where rest: "worker_loop env cfg fuel s1 = (r2, es2, s2)"
        by (cases "worker_loop env cfg fuel s1") auto
      from Suc.prems True it n rest have es: "es = Active True # es1 @ es2"
        by (auto simp: worker_loop_Suc)
      note two = Suc.IH [OF rest]
      from one two have "logged (es1 @ es2)" "settled (es1 @ es2)"
        by (simp_all add: logged_append settled_append)
      then show ?thesis by (simp add: es settled_Cons a)
    qed
  qed
qed

lemma logged_stmtD: "logged_stmt m \<Longrightarrow> m s = (r, es, s') \<Longrightarrow> logged es \<and> settled es"
  by (auto simp: logged_stmt_def split: prod.splits)

lemma logged_bind:
  assumes "setup_stmt m" and "\<And>a. logged_stmt (k a)"
  shows "logged_stmt (bind m k)"
  unfolding logged_stmt_def
proof
  fix s
  obtain r1 es1 s1 where m: "m s = (r1, es1, s1)" by (cases "m s") auto
  from setup_stmtD [OF assms(1) m] have c: "\<forall>e\<in>set es1. \<not> pending e"
    by (auto simp: list_all_iff dest: setup_not_pending)
  note one = logged_calm [OF c] settled_calm [OF c]
  show "case bind m k s of (r, es, s') \<Rightarrow> logged es \<and> settled es"
  proof (cases r1)
    case (Normal a)
    obtain r2 es2 s2 where k: "k a s1 = (r2, es2, s2)" by (cases "k a s1") auto
    from logged_stmtD [OF assms(2) k] one m Normal k show ?thesis
      by (simp add: bind_def logged_append settled_append)
  qed (use one m in \<open>simp_all add: bind_def\<close>)
qed

lemma logged_loop:
  "logged_stmt (bind (GetFrequency env) (\<lambda>_. block [worker_loop env cfg fuel]))"
  unfolding logged_stmt_def
proof
  fix s :: state
  let ?s = "s\<lparr>now := Suc (now s), frequency := device_frequency (env (now s))\<rparr>"
  obtain r es s' where w: "worker_loop env cfg fuel ?s = (r, es, s')"
    by (cases "worker_loop env cfg fuel ?s") auto
  have "\<not> pending (Frequency f)" for f by (simp add: pending_def)
  with worker_loop_logged [OF w]
  have "logged (Frequency (device_frequency (env (now s))) # es)"
    "settled (Frequency (device_frequency (env (now s))) # es)"
    by (simp_all add: settled_Cons)
  with w
  show "case bind (GetFrequency env) (\<lambda>_. block [worker_loop env cfg fuel]) s of
      (r, es, s') \<Rightarrow> logged es \<and> settled es"
    by (cases r) (simp_all add: bind_def GetFrequency_def return_def)
qed

lemma logged_worker: "logged_stmt (worker env cfg fuel)"
proof -
  have eq: "block (play env cfg fuel) =
      bind (block (start_up env))
        (\<lambda>_. bind (GetFrequency env) (\<lambda>_. block [worker_loop env cfg fuel]))"
    by (simp only: play_def block_append block.simps)
  have a: "logged_stmt (block (play env cfg fuel))"
    unfolding eq by (rule logged_bind [OF setup_start_up logged_loop])
  have b: "logged_stmt (bind (initialize env device) (\<lambda>_. block (play env cfg fuel)))"
    for device
    by (rule logged_bind [OF setup_initialize a])
  have c: "logged_stmt (bind (block (negotiate env device))
      (\<lambda>_. bind (initialize env device) (\<lambda>_. block (play env cfg fuel))))" for device
    by (rule logged_bind [OF setup_negotiate b])
  have d: "logged_stmt (bind (lookup_device env cfg) (\<lambda>device.
      bind (block (negotiate env device))
        (\<lambda>_. bind (initialize env device) (\<lambda>_. block (play env cfg fuel)))))"
    by (rule logged_bind [OF setup_lookup_device c])
  show ?thesis
    unfolding worker_split by (rule logged_bind [OF setup_simple(1) d])
qed


lemma run_misaligned:
  "worker misaligned cfg48k 1 session =
     (Normal (),
      [Com CoCreateInstance 0, Com GetDefaultAudioEndpoint 0, Com Activate 0,
       Com IsFormatSupported 0, Com GetDevicePeriod 0, Com Initialize 0x88890019,
       Com GetBufferSize 0, Com Activate 0, Com Initialize 0,
       Handle CreateEvent True, Com SetEventHandle 0, Com GetBufferSize 0,
       Com GetService_IAudioRenderClient 0, Com GetService_IAudioClock 0,
       Handle AvSetMmThreadCharacteristics True, Com Start 0, BufferPosition 0,
       Frequency 10000000, Active False],
      session\<lparr>now := 18\<rparr>)"
  unfolding worker_def lookup_device_def
  by (simp add: stmt_defs GetBufferSize_bufferFrameCount_def init_position_def
      worker_loop_Suc misaligned_def example_defs E_FAIL_def AUDCLNT_E_BUFFER_SIZE_NOT_ALIGNED_def)

lemma run_broken:
  "worker broken cfg48k 1 session =
     (Throw (SnapException 0x80004005 282),
      [Com CoCreateInstance 0, Com GetDefaultAudioEndpoint 0, Com Activate 0,
       Com IsFormatSupported 0, Com GetDevicePeriod 0, Com Initialize 0,
       Handle CreateEvent True, Com SetEventHandle 0, Com GetBufferSize 0,
       Com GetService_IAudioRenderClient 0, Com GetService_IAudioClock 0,
       Handle AvSetMmThreadCharacteristics True, Com Start 0x80004005],
      session\<lparr>now := 13\<rparr>)"
  unfolding worker_def lookup_device_def
  by (simp add: stmt_defs GetBufferSize_bufferFrameCount_def init_position_def
      worker_loop_Suc broken_def example_defs E_FAIL_def AUDCLNT_E_BUFFER_SIZE_NOT_ALIGNED_def)

lemma run_unplugged:
  "worker unplugged cfg_listed 1 unset =
     (Throw (ComError 0x80004003),
      [Com CoCreateInstance 0, Com EnumAudioEndpoints 0, Com Item 0x80070057],
      unset\<lparr>now := 3\<rparr>)"
  unfolding worker_def lookup_device_def
  by (simp add: stmt_defs unplugged_def cfg_listed_def unset_def calm_def S_OK_def FAILED_def
      E_POINTER_def)

text \<open>
  C6, as the code has it. In every run of \<^verbatim>\<open>worker\<close>, a pacing wait that times out
  and a request that finds no chunk are each directly followed by their line in the
  log. A COM call that fails is the last thing the worker does, and the worker ends
  with an exception: the \<^verbatim>\<open>SnapException\<close> of that result code, or, after \<^verbatim>\<open>Item\<close>, whose result is not
  checked, the \<^verbatim>\<open>_com_error(E_POINTER)\<close> of the dereference at line 206. The one
  exception is a first \<^verbatim>\<open>Initialize\<close> that answers
  \<^verbatim>\<open>AUDCLNT_E_BUFFER_SIZE_NOT_ALIGNED\<close>: it is followed by the second attempt,
  \<^verbatim>\<open>GetBufferSize\<close>, \<^verbatim>\<open>Activate\<close> and \<^verbatim>\<open>Initialize\<close> in this order, and the first of
  these that fails ends the worker with its \<^verbatim>\<open>SnapException\<close>. And every exception
  that leaves the worker was raised by its last event, a failed call or a \<^verbatim>\<open>NULL\<close>
  handle: a timeout or a starvation raises none. (The model's own \<open>DivisionByZero\<close>
  stands for the undefined division.)
\<close>

theorem endpoint_failures_abort:
  assumes "worker env cfg fuel s = (r, es, s')"
  shows "(\<forall>pre c h post. es = pre @ Com c h # post \<longrightarrow> FAILED h \<longrightarrow>
            (if c = Initialize \<and> h = AUDCLNT_E_BUFFER_SIZE_NOT_ALIGNED
                \<and> count_call Initialize pre = 0
             then retried r post
             else post = []
                \<and> (if c = Item then r = Throw (ComError E_POINTER)
                   else \<exists>l. r = Throw (SnapException h l))))
       \<and> (\<forall>err. r = Throw err \<longrightarrow>
            err = DivisionByZero \<or> (es \<noteq> [] \<and> raised_by err (last es)))
       \<and> logged es"
proof -
  note w = worker_cases [OF assms]
  have abort: "post = [] \<and> (if c = Item then r = Throw (ComError E_POINTER)
                   else \<exists>l. r = Throw (SnapException h l))"
    if "sound r' es'" "es' = pre @ Com c h # post" "FAILED h" "r' = r" for r' es' pre c h post
  proof -
    from that(3) have "fatal (Com c h)" by (simp add: fatal_def)
    from sound_abort [OF that(1,2) this] that(4) show ?thesis
      by (auto simp: raised_by_Com)
  qed
  have one: "if c = Initialize \<and> h = AUDCLNT_E_BUFFER_SIZE_NOT_ALIGNED
                \<and> count_call Initialize pre = 0
             then retried r post
             else post = []
                \<and> (if c = Item then r = Throw (ComError E_POINTER)
                   else \<exists>l. r = Throw (SnapException h l))"
    if d: "es = pre @ Com c h # post" and f: "FAILED h" for pre c h post
  proof (cases "first_Initialize es")
    case None
    with w have "sound r es" by (simp add: sound_retry_def)
    moreover have "\<not> (c = Initialize \<and> count_call Initialize pre = 0)"
    proof
      assume "c = Initialize \<and> count_call Initialize pre = 0"
      with d have "first_Initialize es = Some (pre, h, post)"
        by (simp add: first_Initialize_split)
      with None show False by simp
    qed
    ultimately show ?thesis using abort [OF _ d f] by auto
  next
    case (Some a)
    then obtain pre0 h0 rest where a: "first_Initialize es = Some (pre0, h0, rest)"
      by (cases a) auto
    from first_Initialize_Some [OF a]
    have e: "es = pre0 @ Com Initialize h0 # rest" and none: "count_call Initialize pre0 = 0"
      by simp_all
    show ?thesis
    proof (cases "c = Initialize \<and> count_call Initialize pre = 0")
      case True
      with d a have same: "pre0 = pre" "h0 = h" "rest = post"
        by (simp_all add: first_Initialize_split)
      show ?thesis
      proof (cases "h = AUDCLNT_E_BUFFER_SIZE_NOT_ALIGNED")
        case n: True
        with w a same True show ?thesis by (simp add: sound_retry_def)
      next
        case n: False
        with w a same have "sound r es" by (simp add: sound_retry_def)
        from abort [OF this d f] n show ?thesis by auto
      qed
    next
      case x: False
      show ?thesis
      proof (cases "h0 = AUDCLNT_E_BUFFER_SIZE_NOT_ALIGNED")
        case False
        with w a have "sound r es" by (simp add: sound_retry_def)
        from abort [OF this d f] x show ?thesis by auto
      next
        case True
        with w a have clean: "\<not> list_ex fatal pre0" and rest: "sound r rest"
          by (simp_all add: sound_retry_def)
        have fat: "fatal (Com c h)" using f by (simp add: fatal_def)
        from d e have "pre @ Com c h # post = pre0 @ Com Initialize h0 # rest" by simp
        then obtain us where
          "(pre = pre0 @ us \<and> us @ Com c h # post = Com Initialize h0 # rest)
           \<or> (pre @ us = pre0 \<and> Com c h # post = us @ Com Initialize h0 # rest)"
          by (auto simp: append_eq_append_conv2)
        then show ?thesis
        proof
          assume l: "pre = pre0 @ us \<and> us @ Com c h # post = Com Initialize h0 # rest"
          show ?thesis
          proof (cases us)
            case Nil
            with l x none show ?thesis by simp
          next
            case (Cons u us')
            with l have "rest = us' @ Com c h # post" by simp
            from abort [OF rest this f] x show ?thesis by auto
          qed
        next
          assume l: "pre @ us = pre0 \<and> Com c h # post = us @ Com Initialize h0 # rest"
          show ?thesis
          proof (cases us)
            case Nil
            with l x none show ?thesis by simp
          next
            case (Cons u us')
            with l have "Com c h \<in> set pre0" by auto
            with clean fat show ?thesis by (auto simp: list_ex_iff)
          qed
        qed
      qed
    qed
  qed
  have two: "err = DivisionByZero \<or> (es \<noteq> [] \<and> raised_by err (last es))"
    if t: "r = Throw err" for err
  proof (cases "err = DivisionByZero")
    case True
    then show ?thesis by simp
  next
    case False
    have "es \<noteq> [] \<and> raised_by err (last es)"
    proof (cases "sound r es")
      case True
      with t False show ?thesis by (simp add: sound_Throw)
    next
      case n: False
      with w obtain pre0 h0 rest where a: "first_Initialize es = Some (pre0, h0, rest)"
        and rest: "sound r rest"
        by (auto simp: sound_retry_def split: option.splits if_splits)
      from first_Initialize_Some [OF a] have "es = pre0 @ Com Initialize h0 # rest" by simp
      moreover from rest t False have "rest \<noteq> []" "raised_by err (last rest)"
        by (simp_all add: sound_Throw)
      ultimately show ?thesis by simp
    qed
    then show ?thesis by simp
  qed
  from logged_stmtD [OF logged_worker assms] have three: "logged es" by simp
  from one two three show ?thesis by blast
qed

theorem endpoint_failures_abort_example:
  "fst (worker broken cfg48k 1 session) = Throw (SnapException 0x80004005 282)
   \<and> raised_by (SnapException 0x80004005 282) (last (fst (snd (worker broken cfg48k 1 session))))
   \<and> fst (worker unplugged cfg_listed 1 unset) = Throw (ComError 0x80004003)
   \<and> raised_by (ComError 0x80004003) (last (fst (snd (worker unplugged cfg_listed 1 unset))))
   \<and> retried (fst (worker misaligned cfg48k 1 session))
       (drop 6 (fst (snd (worker misaligned cfg48k 1 session))))"
proof -
  from endpoint_failures_abort [OF run_broken, THEN conjunct2, THEN conjunct1]
  have "raised_by (SnapException 0x80004005 282) (Com Start 0x80004005)" by simp
  moreover from endpoint_failures_abort [OF run_unplugged, THEN conjunct2, THEN conjunct1]
  have "raised_by (ComError 0x80004003) (Com Item 0x80070057)" by simp
  moreover from endpoint_failures_abort [OF run_misaligned, THEN conjunct1]
  have "retried (Normal ())
       [Com GetBufferSize 0, Com Activate 0, Com Initialize 0,
        Handle CreateEvent True, Com SetEventHandle 0, Com GetBufferSize 0,
        Com GetService_IAudioRenderClient 0, Com GetService_IAudioClock 0,
        Handle AvSetMmThreadCharacteristics True, Com Start 0, BufferPosition 0,
        Frequency 10000000, Active False]"
    by (elim allE [where x = "[Com CoCreateInstance 0, Com GetDefaultAudioEndpoint 0,
          Com Activate 0, Com IsFormatSupported 0, Com GetDevicePeriod 0]"]
        allE [where x = Initialize] allE [where x = "0x88890019"]
        allE [where x = "[Com GetBufferSize 0, Com Activate 0, Com Initialize 0,
          Handle CreateEvent True, Com SetEventHandle 0, Com GetBufferSize 0,
          Com GetService_IAudioRenderClient 0, Com GetService_IAudioClock 0,
          Handle AvSetMmThreadCharacteristics True, Com Start 0, BufferPosition 0,
          Frequency 10000000, Active False]"])
       (simp add: FAILED_def AUDCLNT_E_BUFFER_SIZE_NOT_ALIGNED_def count_call_def)
  ultimately show ?thesis unfolding run_broken run_unplugged run_misaligned by simp
qed

text \<open>
  C6 as the specification states it fails for \<^verbatim>\<open>Initialize\<close>: the result
  \<^verbatim>\<open>AUDCLNT_E_BUFFER_SIZE_NOT_ALIGNED\<close> is a failure code, and the worker goes on to
  \<^verbatim>\<open>GetBufferSize\<close>, \<^verbatim>\<open>Activate\<close> and a second \<^verbatim>\<open>Initialize\<close>.
\<close>

theorem initialize_is_retried:
  "FAILED 0x88890019
   \<and> worker misaligned cfg48k 1 session =
     (Normal (),
      [Com CoCreateInstance 0, Com GetDefaultAudioEndpoint 0, Com Activate 0,
       Com IsFormatSupported 0, Com GetDevicePeriod 0, Com Initialize 0x88890019,
       Com GetBufferSize 0, Com Activate 0, Com Initialize 0,
       Handle CreateEvent True, Com SetEventHandle 0, Com GetBufferSize 0,
       Com GetService_IAudioRenderClient 0, Com GetService_IAudioClock 0,
       Handle AvSetMmThreadCharacteristics True, Com Start 0, BufferPosition 0,
       Frequency 10000000, Active False],
      session\<lparr>now := 18\<rparr>)"
  unfolding run_misaligned by (simp add: FAILED_def)

section \<open>The clock reading\<close>

lemma count_frequency_simps [simp]:
  "count_frequency [] = 0"
  "count_frequency (xs @ ys) = count_frequency xs + count_frequency ys"
  "count_frequency (e # es) = (case e of Frequency _ \<Rightarrow> 1 | _ \<Rightarrow> 0) + count_frequency es"
  by (simp_all add: count_frequency_def split: event.splits)

lemma requested_simps [simp]:
  "\<not> requested []"
  "requested (xs @ ys) = (requested xs \<or> requested ys)"
  "requested (e # es) = ((case e of PlayerChunk _ _ _ \<Rightarrow> True | _ \<Rightarrow> False) \<or> requested es)"
  by (simp_all add: requested_def)

lemma quiet_clock:
  assumes "\<forall>e\<in>set es. quiet e"
  shows "\<not> requested es" "count_frequency es = 0"
  using assms
  by (auto simp: requested_def count_frequency_def quiet_def list_ex_iff filter_empty_conv
      split: event.splits)

lemma wait_loop_state: "wait_loop env fuel s = (r, es, s') \<Longrightarrow> frequency s' = frequency s"
proof -
  assume "wait_loop env fuel s = (r, es, s')"
  from wait_loop_frame [OF this] have "s' = s\<lparr>now := now s'\<rparr>" by simp
  then show ?thesis by (metis state.select_convs(5) state.surjective state.update_convs(1))
qed

lemma recovery_clock:
  assumes "block (recovery env fuel l1 l2 l3) s = (r, es, s')"
  shows "frequency s' = frequency s \<and> count_frequency es = 0 \<and> \<not> requested es"
  using assms
proof (cases rule: recovery_cases)
  case (fuel pes)
  from wait_loop_frame [OF fuel(3)] have "\<forall>e\<in>set pes. quiet e" by simp
  from quiet_clock [OF this] wait_loop_state [OF fuel(3)] fuel show ?thesis by simp
next
  case (start_failed pes s1)
  from wait_loop_frame [OF start_failed(3)] have "\<forall>e\<in>set pes. quiet e" by simp
  from quiet_clock [OF this] wait_loop_state [OF start_failed(3)] start_failed show ?thesis by simp
next
  case (restarted pes s1)
  from wait_loop_frame [OF restarted(3)] have "\<forall>e\<in>set pes. quiet e" by simp
  from quiet_clock [OF this] wait_loop_state [OF restarted(3)] restarted show ?thesis by simp
qed simp_all

lemma iteration_clock:
  assumes "iteration env cfg fuel s = (r, es, s')"
  shows "frequency s' = frequency s \<and> count_frequency es = 0
       \<and> (requested es \<longrightarrow>
            take 4 es =
              [Waited WAIT_OBJECT_0, Active True, Position (device_position (env (now s + 2))),
               PlayerChunk (drift (bufferPosition s) (nSamplesPerSec cfg)
                   (device_position (env (now s + 2))) (frequency s))
                 (bufferFrameCount s) (chunk_available (env (now s + 3)))]
            \<and> \<not> requested (drop 4 es))"
proof -
  have n: "now s + 2 = Suc (Suc (now s))" "now s + 3 = Suc (Suc (Suc (now s)))"
    by simp_all
  from assms show ?thesis
  proof (cases rule: iteration_cases)
    case (timeout r0 es0)
    from recovery_clock [OF timeout(2)] timeout show ?thesis by simp
  next
    case (starved es0)
    from recovery_clock [OF starved(6)] starved show ?thesis by (simp add: request_def n)
  qed (simp_all add: request_def n)
qed

lemma worker_loop_clock:
  "worker_loop env cfg fuel s = (r, es, s') \<Longrightarrow>
     frequency s' = frequency s \<and> count_frequency es = 0"
proof (induction fuel arbitrary: s r es s')
  case 0
  then show ?case by (auto simp: worker_loop_0)
next
  case (Suc fuel)
  show ?case
  proof (cases "active (env (now s))")
    case False
    with Suc.prems show ?thesis by (auto simp: worker_loop_Suc)
  next
    case True
    obtain r1 es1 s1 where it: "iteration env cfg fuel (s\<lparr>now := Suc (now s)\<rparr>) = (r1, es1, s1)"
      by (cases "iteration env cfg fuel (s\<lparr>now := Suc (now s)\<rparr>)") auto
    from iteration_clock [OF it] have one: "frequency s1 = frequency s" "count_frequency es1 = 0"
      by simp_all
    obtain r2 es2 s2 where rest: "worker_loop env cfg fuel s1 = (r2, es2, s2)"
      by (cases "worker_loop env cfg fuel s1") auto
    from Suc.IH [OF rest] have two: "frequency s2 = frequency s1" "count_frequency es2 = 0"
      by simp_all
    from Suc.prems True it rest one two show ?thesis
      by (cases r1) (auto simp: worker_loop_Suc)
  qed
qed

lemma freq_le_bind:
  assumes "freq_le a m" and "\<And>x. freq_le b (f x)"
  shows "freq_le (a + b) (bind m f)"
  unfolding freq_le_def
proof
  fix s
  obtain r1 es1 s1 where m: "m s = (r1, es1, s1)" by (cases "m s") auto
  from assms(1) m have a: "count_frequency es1 \<le> a" by (auto simp: freq_le_def dest: spec [of _ s])
  show "count_frequency (fst (snd (bind m f s))) \<le> a + b"
  proof (cases r1)
    case (Normal x)
    obtain r2 es2 s2 where f: "f x s1 = (r2, es2, s2)" by (cases "f x s1") auto
    from assms(2) [of x] f have "count_frequency es2 \<le> b"
      by (auto simp: freq_le_def dest: spec [of _ s1])
    with a m Normal f show ?thesis by (simp add: bind_def)
  qed (use a m in \<open>simp_all add: bind_def\<close>)
qed

lemma freq_le_bind0: "freq_le 0 m \<Longrightarrow> (\<And>x. freq_le 0 (f x)) \<Longrightarrow> freq_le 0 (bind m f)"
  using freq_le_bind [of 0 m 0 f] by simp

lemma freq_le_block: "(\<And>m. m \<in> set ms \<Longrightarrow> freq_le 0 m) \<Longrightarrow> freq_le 0 (block ms)"
proof (induction ms)
  case Nil
  then show ?case by (simp add: freq_le_def return_def)
next
  case (Cons m ms)
  have "freq_le 0 (bind m (\<lambda>_. block ms))"
    by (rule freq_le_bind0) (simp_all add: Cons)
  then show ?case by simp
qed

lemma freq_le_if: "freq_le n a \<Longrightarrow> freq_le n b \<Longrightarrow> freq_le n (if c then a else b)"
  by simp

lemma freq_le_simple:
  "freq_le 0 (checked env c line)" "freq_le 0 (throw e)"
  "freq_le 0 (checked_handle env h line)" "freq_le 0 (GetBufferSize_bufferFrameCount env line)"
  "freq_le 0 init_position" "freq_le 0 (assign_bufferPosition v)" "freq_le 0 (com env c)"
  "freq_le 0 (CHECK_HR hres line)" "freq_le 0 (return a)"
  by (auto simp: freq_le_def stmt_defs GetBufferSize_bufferFrameCount_def init_position_def Let_def)

lemma freq_le_worker_loop: "freq_le 0 (worker_loop env cfg fuel)"
  unfolding freq_le_def
proof
  fix s
  obtain r es s' where w: "worker_loop env cfg fuel s = (r, es, s')"
    by (cases "worker_loop env cfg fuel s") auto
  from worker_loop_clock [OF w] w show "count_frequency (fst (snd (worker_loop env cfg fuel s))) \<le> 0"
    by simp
qed

lemma freq_le_GetFrequency: "freq_le 1 (GetFrequency env)"
  by (simp add: freq_le_def GetFrequency_def)

lemma freq_le_play: "freq_le 1 (block (play env cfg fuel))"
proof -
  have eq: "block (play env cfg fuel) =
      bind (block (start_up env))
        (\<lambda>_. bind (GetFrequency env) (\<lambda>_. block [worker_loop env cfg fuel]))"
    by (simp only: play_def block_append block.simps)
  have b: "freq_le 0 (block (start_up env))"
    unfolding start_up_def by (rule freq_le_block) (auto simp: freq_le_simple)
  have l: "freq_le 0 (block [worker_loop env cfg fuel])"
    by (rule freq_le_block) (simp add: freq_le_worker_loop)
  have "freq_le (1 + 0) (bind (GetFrequency env) (\<lambda>_. block [worker_loop env cfg fuel]))"
    by (rule freq_le_bind [OF freq_le_GetFrequency l])
  from freq_le_bind [OF b this] show ?thesis
    unfolding eq by simp
qed

lemma freq_le_arrow: "freq_le 0 m \<Longrightarrow> freq_le 0 (arrow p m)"
  by (simp add: arrow_def freq_le_simple)

lemma freq_le_lookup_device: "freq_le 0 (lookup_device env cfg)"
  unfolding lookup_device_def
  by (intro freq_le_if freq_le_bind0) (simp_all add: freq_le_simple)

lemma freq_le_negotiate: "freq_le 0 (block (negotiate env device))"
  unfolding negotiate_def
  by (rule freq_le_block) (auto simp: freq_le_simple intro: freq_le_arrow)

lemma freq_le_realign: "freq_le 0 (block (realign env device))"
  unfolding realign_def
  by (rule freq_le_block) (auto simp: freq_le_simple intro: freq_le_arrow)

lemma freq_le_initialize: "freq_le 0 (initialize env device)"
  unfolding initialize_def
  by (rule freq_le_bind0) (simp_all add: freq_le_simple freq_le_realign)

lemma freq_le_worker: "freq_le 1 (worker env cfg fuel)"
proof -
  have a: "freq_le (0 + 1) (bind (initialize env device) (\<lambda>_. block (play env cfg fuel)))"
    for device
    by (rule freq_le_bind [OF freq_le_initialize freq_le_play])
  have b: "freq_le (0 + (0 + 1)) (bind (block (negotiate env device))
      (\<lambda>_. bind (initialize env device) (\<lambda>_. block (play env cfg fuel))))" for device
    by (rule freq_le_bind [OF freq_le_negotiate a])
  have c: "freq_le (0 + (0 + (0 + 1))) (bind (lookup_device env cfg) (\<lambda>device.
      bind (block (negotiate env device))
        (\<lambda>_. bind (initialize env device) (\<lambda>_. block (play env cfg fuel)))))"
    by (rule freq_le_bind [OF freq_le_lookup_device b])
  have "freq_le (0 + (0 + (0 + (0 + 1)))) (worker env cfg fuel)"
    unfolding worker_split by (rule freq_le_bind [OF freq_le_simple(1) c])
  then show ?thesis by simp
qed


lemma clocked_quiet: "\<not> requested es \<Longrightarrow> clocked rate f bp p es"
  by (induction es arbitrary: f bp p) (auto split: event.splits)

lemma clocked_append:
  "clocked rate f bp p xs \<Longrightarrow> count_frequency xs = 0 \<Longrightarrow>
     \<forall>p'. clocked rate f (last (bp # assigned xs)) p' ys \<Longrightarrow>
     clocked rate f bp p (xs @ ys)"
  by (induction xs arbitrary: bp p) (auto simp: assigned_Cons split: event.splits)

lemma clocked_setup:
  "list_all setup_event xs \<Longrightarrow>
     \<forall>p'. clocked rate f (last (bp # assigned xs)) p' ys \<Longrightarrow>
     clocked rate f bp p (xs @ ys)"
  by (induction xs arbitrary: bp p)
     (auto simp: setup_event_def assigned_Cons split: event.splits)

lemma iteration_tracks:
  assumes "iteration env cfg fuel s = (r, es, s')"
  shows "bufferPosition s' = last (bufferPosition s # assigned es)"
  using iteration_bufferPosition [OF assms] by (simp split: if_splits)

lemma iteration_clocked:
  assumes "iteration env cfg fuel s = (r, es, s')"
  shows "clocked (nSamplesPerSec cfg) (Some (frequency s)) (bufferPosition s) p es"
proof (cases "requested es")
  case False
  then show ?thesis by (rule clocked_quiet)
next
  case True
  let ?l = "[Waited WAIT_OBJECT_0, Active True, Position (device_position (env (now s + 2))),
             PlayerChunk (drift (bufferPosition s) (nSamplesPerSec cfg)
                 (device_position (env (now s + 2))) (frequency s))
               (bufferFrameCount s) (chunk_available (env (now s + 3)))]"
  from iteration_clock [OF assms] True
  have t: "take 4 es = ?l" and d: "\<not> requested (drop 4 es)" by simp_all
  have "es = take 4 es @ drop 4 es" by simp
  then have es: "es = ?l @ drop 4 es" unfolding t .
  have "clocked (nSamplesPerSec cfg) (Some (frequency s)) (bufferPosition s) p (?l @ drop 4 es)"
    by (simp add: clocked_quiet [OF d])
  with es show ?thesis by simp
qed

lemma worker_loop_clocked:
  "worker_loop env cfg fuel s = (r, es, s') \<Longrightarrow>
     clocked (nSamplesPerSec cfg) (Some (frequency s)) (bufferPosition s) p es"
proof (induction fuel arbitrary: s r es s' p)
  case 0
  then show ?case by (simp add: worker_loop_0)
next
  case (Suc fuel)
  show ?case
  proof (cases "active (env (now s))")
    case False
    with Suc.prems show ?thesis by (auto simp: worker_loop_Suc)
  next
    case True
    let ?s = "s\<lparr>now := Suc (now s)\<rparr>"
    obtain r1 es1 s1 where it: "iteration env cfg fuel ?s = (r1, es1, s1)"
      by (cases "iteration env cfg fuel ?s") auto
    from iteration_clocked [OF it]
    have one: "clocked (nSamplesPerSec cfg) (Some (frequency s)) (bufferPosition s) None es1"
      by simp
    show ?thesis
    proof (cases "r1 = Normal ()")
      case False
      with Suc.prems True it have "es = Active True # es1"
        by (cases r1) (auto simp: worker_loop_Suc)
      with one show ?thesis by simp
    next
      case n: True
      obtain r2 es2 s2 where rest: "worker_loop env cfg fuel s1 = (r2, es2, s2)"
        by (cases "worker_loop env cfg fuel s1") auto
      from Suc.prems True it n rest have es: "es = Active True # es1 @ es2"
        by (auto simp: worker_loop_Suc)
      from iteration_clock [OF it] have f: "frequency s1 = frequency s" "count_frequency es1 = 0"
        by simp_all
      from iteration_tracks [OF it] have b: "bufferPosition s1 = last (bufferPosition s # assigned es1)"
        by simp
      have "clocked (nSamplesPerSec cfg) (Some (frequency s)) (bufferPosition s) None (es1 @ es2)"
      proof (rule clocked_append [OF one f(2)], rule allI)
        fix p'
        from Suc.IH [OF rest, of p'] f(1) b
        show "clocked (nSamplesPerSec cfg) (Some (frequency s))
            (last (bufferPosition s # assigned es1)) p' es2" by simp
      qed
      then show ?thesis by (simp add: es)
    qed
  qed
qed

lemma clocked_bind:
  assumes "setup_stmt m" and "\<And>a. clocked_stmt rate (k a)"
  shows "clocked_stmt rate (bind m k)"
  unfolding clocked_stmt_def
proof (intro allI)
  fix s p
  obtain r1 es1 s1 where m: "m s = (r1, es1, s1)" by (cases "m s") auto
  note one = setup_stmtD [OF assms(1) m]
  have none: "clocked rate None (bufferPosition s) p (es1 @ [])"
    by (rule clocked_setup) (use one in simp_all)
  show "clocked rate None (bufferPosition s) p (fst (snd (bind m k s)))"
  proof (cases r1)
    case (Normal a)
    obtain r2 es2 s2 where k: "k a s1 = (r2, es2, s2)" by (cases "k a s1") auto
    have "clocked rate None (bufferPosition s) p (es1 @ es2)"
    proof (rule clocked_setup [OF conjunct1 [OF one]], rule allI)
      fix p'
      from assms(2) [of a] have "clocked rate None (bufferPosition s1) p' (fst (snd (k a s1)))"
        unfolding clocked_stmt_def by blast
      with k one
      show "clocked rate None (last (bufferPosition s # assigned es1)) p' es2"
        by simp
    qed
    with m Normal k show ?thesis by (simp add: bind_def)
  qed (use none m in \<open>simp_all add: bind_def\<close>)
qed

lemma clocked_loop:
  "clocked_stmt (nSamplesPerSec cfg)
     (bind (GetFrequency env) (\<lambda>_. block [worker_loop env cfg fuel]))"
  unfolding clocked_stmt_def
proof (intro allI)
  fix s :: state and p
  let ?s = "s\<lparr>now := Suc (now s), frequency := device_frequency (env (now s))\<rparr>"
  obtain r es s' where w: "worker_loop env cfg fuel ?s = (r, es, s')"
    by (cases "worker_loop env cfg fuel ?s") auto
  from worker_loop_clocked [OF w, of None]
  have "clocked (nSamplesPerSec cfg) (Some (device_frequency (env (now s)))) (bufferPosition s)
      None es" by simp
  moreover from w
  have "fst (snd (bind (GetFrequency env) (\<lambda>_. block [worker_loop env cfg fuel]) s))
      = Frequency (device_frequency (env (now s))) # es"
    by (cases r) (simp_all add: bind_def GetFrequency_def return_def)
  ultimately show "clocked (nSamplesPerSec cfg) None (bufferPosition s) p
      (fst (snd (bind (GetFrequency env) (\<lambda>_. block [worker_loop env cfg fuel]) s)))"
    by simp
qed

lemma clocked_worker: "clocked_stmt (nSamplesPerSec cfg) (worker env cfg fuel)"
proof -
  have eq: "block (play env cfg fuel) =
      bind (block (start_up env))
        (\<lambda>_. bind (GetFrequency env) (\<lambda>_. block [worker_loop env cfg fuel]))"
    by (simp only: play_def block_append block.simps)
  have a: "clocked_stmt (nSamplesPerSec cfg) (block (play env cfg fuel))"
    unfolding eq by (rule clocked_bind [OF setup_start_up clocked_loop])
  have b: "clocked_stmt (nSamplesPerSec cfg)
      (bind (initialize env device) (\<lambda>_. block (play env cfg fuel)))" for device
    by (rule clocked_bind [OF setup_initialize a])
  have c: "clocked_stmt (nSamplesPerSec cfg) (bind (block (negotiate env device))
      (\<lambda>_. bind (initialize env device) (\<lambda>_. block (play env cfg fuel))))" for device
    by (rule clocked_bind [OF setup_negotiate b])
  have d: "clocked_stmt (nSamplesPerSec cfg) (bind (lookup_device env cfg) (\<lambda>device.
      bind (block (negotiate env device))
        (\<lambda>_. bind (initialize env device) (\<lambda>_. block (play env cfg fuel)))))"
    by (rule clocked_bind [OF setup_lookup_device c])
  show ?thesis
    unfolding worker_split by (rule clocked_bind [OF setup_simple(1) d])
qed


lemma run_calm:
  "iteration (\<lambda>_. calm) cfg48k 0 session =
     (Normal (),
      [Waited 0, Active True, Position 0, PlayerChunk 0 480 True, Volume 480, Com GetBuffer 0,
       Memcpy, Com ReleaseBuffer 0, BufferPosition 480],
      \<lparr>now = 6, bufferFrameCount = 480, position = 0, bufferPosition = 480,
         frequency = 10000000\<rparr>)"
  by (simp add: iteration_def stmt_defs example_defs)

lemma run_retuned:
  "worker retuned cfg48k 2 unset =
     (Normal (),
      [Com CoCreateInstance 0, Com GetDefaultAudioEndpoint 0, Com Activate 0,
       Com IsFormatSupported 0, Com GetDevicePeriod 0, Com Initialize 0,
       Handle CreateEvent True, Com SetEventHandle 0, Com GetBufferSize 0,
       Com GetService_IAudioRenderClient 0, Com GetService_IAudioClock 0,
       Handle AvSetMmThreadCharacteristics True, Com Start 0, BufferPosition 0,
       Frequency 10000000,
       Active True, Waited 0, Active True, Position 5000000,
       PlayerChunk 18446744073709051616 480 True, Volume 480, Com GetBuffer 0, Memcpy,
       Com ReleaseBuffer 0, BufferPosition 480, Active False],
      \<lparr>now = 22, bufferFrameCount = 480, position = 5000000, bufferPosition = 480,
         frequency = 10000000\<rparr>)"
  by code_simp

text \<open>
  C7, as the code has it. A pass that requests a chunk reads the position of the device
  clock in that same pass, directly before the request, and computes the offset from
  that position and from the local \<^verbatim>\<open>frequency\<close>. The frequency is not read in the pass:
  no pass and no run of the loop reads it or changes the local, and a whole run of
  \<^verbatim>\<open>worker\<close> reads it at most once (line 288, before the loop). The local holds that
  reading: in a run of \<^verbatim>\<open>worker\<close>, whatever the locals held at the start, every request
  comes after the reading of the frequency and directly after a reading of the
  position, and its offset is \<open>drift\<close> of the value last assigned to
  \<^verbatim>\<open>bufferPosition\<close>, the sample rate, the position just read and the frequency read
  before the loop.
\<close>

theorem clock_reading:
  "(iteration env cfg fuel s = (r, es, s') \<longrightarrow>
      frequency s' = frequency s \<and> count_frequency es = 0
      \<and> (requested es \<longrightarrow>
           take 4 es =
             [Waited WAIT_OBJECT_0, Active True, Position (device_position (env (now s + 2))),
              PlayerChunk (drift (bufferPosition s) (nSamplesPerSec cfg)
                  (device_position (env (now s + 2))) (frequency s))
                (bufferFrameCount s) (chunk_available (env (now s + 3)))]
           \<and> \<not> requested (drop 4 es)))
   \<and> (worker_loop env cfg fuel s = (r, es, s') \<longrightarrow>
        frequency s' = frequency s \<and> count_frequency es = 0)
   \<and> (worker env cfg fuel s = (r, es, s') \<longrightarrow>
        count_frequency es \<le> 1
        \<and> clocked (nSamplesPerSec cfg) None (bufferPosition s) None es)"
proof (intro conjI impI)
  assume w: "worker env cfg fuel s = (r, es, s')"
  with freq_le_worker [of env cfg fuel] show "count_frequency es \<le> 1"
    by (auto simp: freq_le_def dest: spec [of _ s])
  from clocked_worker [of cfg env fuel] w
  show "clocked (nSamplesPerSec cfg) None (bufferPosition s) None es"
    by (auto simp: clocked_stmt_def dest!: spec [of _ s] spec [of _ None])
qed (use iteration_clock worker_loop_clock in blast)+

theorem clock_reading_example:
  "frequency (snd (snd (iteration (\<lambda>_. calm) cfg48k 0 session))) = frequency session
   \<and> count_frequency (fst (snd (worker retuned cfg48k 2 unset))) \<le> 1
   \<and> clocked 48000 None 0 None (fst (snd (worker retuned cfg48k 2 unset)))"
  using clock_reading [THEN conjunct1, rule_format, OF run_calm]
    clock_reading [THEN conjunct2, THEN conjunct2, rule_format, OF run_retuned]
  unfolding run_calm run_retuned by (simp add: cfg48k_def unset_def)

text \<open>
  C7 as the specification states it, with the frequency sampled anew in each period,
  fails: in this run, which starts with nothing in the locals, the frequency is read
  once, before the loop, and the pass uses that reading (10 MHz, an offset of -500000
  microseconds) although the device reports 20 MHz when the pass reads the position.
\<close>

theorem frequency_is_stale:
  "worker retuned cfg48k 2 unset =
     (Normal (),
      [Com CoCreateInstance 0, Com GetDefaultAudioEndpoint 0, Com Activate 0,
       Com IsFormatSupported 0, Com GetDevicePeriod 0, Com Initialize 0,
       Handle CreateEvent True, Com SetEventHandle 0, Com GetBufferSize 0,
       Com GetService_IAudioRenderClient 0, Com GetService_IAudioClock 0,
       Handle AvSetMmThreadCharacteristics True, Com Start 0, BufferPosition 0,
       Frequency 10000000,
       Active True, Waited 0, Active True, Position 5000000,
       PlayerChunk 18446744073709051616 480 True, Volume 480, Com GetBuffer 0, Memcpy,
       Com ReleaseBuffer 0, BufferPosition 480, Active False],
      \<lparr>now = 22, bufferFrameCount = 480, position = 5000000, bufferPosition = 480,
         frequency = 10000000\<rparr>)
   \<and> frequency unset = 0
   \<and> device_position (retuned 17) = 5000000 \<and> device_frequency (retuned 17) = 20000000
   \<and> drift 0 48000 5000000 10000000 = 18446744073709051616
   \<and> drift 0 48000 5000000 20000000 \<noteq> 18446744073709051616"
  unfolding run_retuned by (simp add: retuned_def calm_def drift_def unset_def)

section \<open>The end-to-end scenario\<close>

text \<open>
  C8. With a period of 480 frames at 48 kHz, five chunks, a starvation with three empty
  polls, five more chunks and then the stop signal: the run of the loop is the trace
  below. It has one recovery (one \<^verbatim>\<open>Stop\<close>, one \<^verbatim>\<open>Reset\<close>, one \<^verbatim>\<open>Start\<close>), the
  values assigned to \<^verbatim>\<open>bufferPosition\<close> are 480, 960, 1440, 1920, 2400, 0, 480, 960,
  1440, 1920, 2400, and each of the ten delivered chunks is followed by one
  \<^verbatim>\<open>adjustVolume\<close> and then by its \<^verbatim>\<open>GetBuffer\<close>, \<^verbatim>\<open>memcpy\<close> and \<^verbatim>\<open>ReleaseBuffer\<close>.
\<close>

theorem end_to_end:
  "worker_loop scenario cfg48k 12 session =
     (Normal (),
      [Active True, Waited 0, Active True, Position 0, PlayerChunk 0 480 True,
       Volume 480, Com GetBuffer 0, Memcpy, Com ReleaseBuffer 0, BufferPosition 480,
       Active True, Waited 0, Active True, Position 0, PlayerChunk 10000 480 True,
       Volume 480, Com GetBuffer 0, Memcpy, Com ReleaseBuffer 0, BufferPosition 960,
       Active True, Waited 0, Active True, Position 0, PlayerChunk 20000 480 True,
       Volume 480, Com GetBuffer 0, Memcpy, Com ReleaseBuffer 0, BufferPosition 1440,
       Active True, Waited 0, Active True, Position 0, PlayerChunk 30000 480 True,
       Volume 480, Com GetBuffer 0, Memcpy, Com ReleaseBuffer 0, BufferPosition 1920,
       Active True, Waited 0, Active True, Position 0, PlayerChunk 40000 480 True,
       Volume 480, Com GetBuffer 0, Memcpy, Com ReleaseBuffer 0, BufferPosition 2400,
       Active True, Waited 0, Active True, Position 0, PlayerChunk 50000 480 False,
       Logged ''Failed to get chunk'', Com Stop 0, Com Reset 0,
       Active True, ChunkWait False, Logged ''Waiting for chunk'',
       Active True, ChunkWait False, Logged ''Waiting for chunk'',
       Active True, ChunkWait False, Logged ''Waiting for chunk'',
       Active True, ChunkWait True, Com Start 0, BufferPosition 0,
       Active True, Waited 0, Active True, Position 0, PlayerChunk 0 480 True,
       Volume 480, Com GetBuffer 0, Memcpy, Com ReleaseBuffer 0, BufferPosition 480,
       Active True, Waited 0, Active True, Position 0, PlayerChunk 10000 480 True,
       Volume 480, Com GetBuffer 0, Memcpy, Com ReleaseBuffer 0, BufferPosition 960,
       Active True, Waited 0, Active True, Position 0, PlayerChunk 20000 480 True,
       Volume 480, Com GetBuffer 0, Memcpy, Com ReleaseBuffer 0, BufferPosition 1440,
       Active True, Waited 0, Active True, Position 0, PlayerChunk 30000 480 True,
       Volume 480, Com GetBuffer 0, Memcpy, Com ReleaseBuffer 0, BufferPosition 1920,
       Active True, Waited 0, Active True, Position 0, PlayerChunk 40000 480 True,
       Volume 480, Com GetBuffer 0, Memcpy, Com ReleaseBuffer 0, BufferPosition 2400,
       Active False],
      \<lparr>now = 87, bufferFrameCount = 480, position = 0, bufferPosition = 2400,
         frequency = 10000000\<rparr>)
   \<and> assigned (fst (snd (worker_loop scenario cfg48k 12 session))) =
       [480, 960, 1440, 1920, 2400, 0, 480, 960, 1440, 1920, 2400]
   \<and> count_call Stop (fst (snd (worker_loop scenario cfg48k 12 session))) = 1
   \<and> count_call Reset (fst (snd (worker_loop scenario cfg48k 12 session))) = 1
   \<and> count_call Start (fst (snd (worker_loop scenario cfg48k 12 session))) = 1
   \<and> count_volume (fst (snd (worker_loop scenario cfg48k 12 session))) = 10
   \<and> count_call ReleaseBuffer (fst (snd (worker_loop scenario cfg48k 12 session))) = 10"
  by code_simp

end
